theory Spec2Isabelle
  imports Main
begin

section \<open>Strings of the micro-format\<close>

text \<open>
  A JavaScript string is modelled as a \<^typ>\<open>string\<close>, one \<^typ>\<open>char\<close> per code unit
  (code units 0 to 255). The single quote and the semicolon are the two characters the
  micro-format gives a meaning to.
\<close>

definition sq :: char where
  "sq = CHR 0x27"

definition semi :: char where
  "semi = CHR 0x3B"

text \<open>
  \<^verbatim>\<open>String.prototype.trim\<close> removes white space and line terminators at both ends.
  In the range of \<^typ>\<open>char\<close> these are TAB, LF, VT, FF, CR, SPACE and NBSP.
\<close>

definition is_ws :: "char \<Rightarrow> bool" where
  "is_ws c = (c \<in> set [CHR 0x09, CHR 0x0A, CHR 0x0B, CHR 0x0C, CHR 0x0D, CHR 0x20, CHR 0xA0])"

definition trim :: "string \<Rightarrow> string" where
  "trim s = rev (dropWhile is_ws (rev (dropWhile is_ws s)))"

text \<open>\<^verbatim>\<open>raw.split(";")\<close>: the pieces between semicolons; the empty string gives one empty piece.\<close>

fun split_semis :: "string \<Rightarrow> string list" where
  "split_semis [] = [[]]"
| "split_semis (c # cs) =
     (if c = semi then [] # split_semis cs
      else (case split_semis cs of
              [] \<Rightarrow> [[c]]
            | x # xs \<Rightarrow> (c # x) # xs))"

text \<open>\<^verbatim>\<open>pieces.join(";")\<close>.\<close>

fun join_semis :: "string list \<Rightarrow> string" where
  "join_semis [] = []"
| "join_semis [x] = x"
| "join_semis (x # y # ys) = x @ [semi] @ join_semis (y # ys)"

text \<open>\<^verbatim>\<open>.filter((r) => r !== null)\<close> on the result of a \<^verbatim>\<open>map\<close> that returns a record or null.\<close>

fun non_null :: "'a option list \<Rightarrow> 'a list" where
  "non_null [] = []"
| "non_null (None # xs) = non_null xs"
| "non_null (Some x # xs) = x # non_null xs"

section \<open>The regular expressions of the parsers\<close>

text \<open>
  Every pattern of \<^verbatim>\<open>stack-data.utils.ts\<close> is a sequence of literal texts and of capturing
  groups \<^verbatim>\<open>([^']+)\<close> and \<^verbatim>\<open>([^']*)\<close>. \<^verbatim>\<open>r.match(re)\<close> without the global flag is a
  backtracking search: the leftmost start position at which the sequence matches, each
  group trying its longest run of characters other than the quote first and shorter runs
  after that. The result is the list of captured groups, \<open>None\<close> for \<^verbatim>\<open>null\<close>.
\<close>

datatype tok = Lit string | Some1 | Any0

fun try_lens :: "(string \<Rightarrow> string list option) \<Rightarrow> string \<Rightarrow> nat \<Rightarrow> nat \<Rightarrow> string list option" where
  "try_lens k s lo n =
     (if n < lo then None
      else case k (drop n s) of
             Some gs \<Rightarrow> Some (take n s # gs)
           | None \<Rightarrow> (case n of 0 \<Rightarrow> None | Suc m \<Rightarrow> try_lens k s lo m))"

primrec match_here :: "tok list \<Rightarrow> string \<Rightarrow> string list option" where
  "match_here [] s = Some []"
| "match_here (t # ts) s =
     (case t of
        Lit l \<Rightarrow> if take (length l) s = l then match_here ts (drop (length l) s) else None
      | Some1 \<Rightarrow> try_lens (match_here ts) s 1 (length (takeWhile (\<lambda>c. c \<noteq> sq) s))
      | Any0 \<Rightarrow> try_lens (match_here ts) s 0 (length (takeWhile (\<lambda>c. c \<noteq> sq) s)))"

fun re_match :: "tok list \<Rightarrow> string \<Rightarrow> string list option" where
  "re_match re s =
     (case match_here re s of
        Some gs \<Rightarrow> Some gs
      | None \<Rightarrow> (case s of [] \<Rightarrow> None | c # cs \<Rightarrow> re_match re cs))"

declare try_lens.simps [simp del] re_match.simps [simp del]

definition open_lit :: string where
  "open_lit = [CHR 0x28, sq]"

definition sep_lit :: string where
  "sep_lit = [sq, CHR 0x2C, sq]"

definition close_lit :: string where
  "close_lit = [sq, CHR 0x29]"

text \<open>\<^verbatim>\<open>/\('([^']+)','([^']*)','([^']*)','([^']*)','([^']+)'\)/\<close>\<close>

definition replacement_re :: "tok list" where
  "replacement_re =
     [Lit open_lit, Some1, Lit sep_lit, Any0, Lit sep_lit, Any0, Lit sep_lit, Any0,
      Lit sep_lit, Some1, Lit close_lit]"

text \<open>\<^verbatim>\<open>/\('([^']+)','([^']*)','([^']*)','([^']+)'\)/\<close>, the pattern of the new format.\<close>

definition four_field_re :: "tok list" where
  "four_field_re =
     [Lit open_lit, Some1, Lit sep_lit, Any0, Lit sep_lit, Any0, Lit sep_lit, Some1,
      Lit close_lit]"

text \<open>\<^verbatim>\<open>/\('([^']+)','([^']*)','([^']*)'\)/\<close>, the pattern of the old format.\<close>

definition three_field_re :: "tok list" where
  "three_field_re =
     [Lit open_lit, Some1, Lit sep_lit, Any0, Lit sep_lit, Any0, Lit close_lit]"

text \<open>\<^verbatim>\<open>/\('([^']+)','([^']*)'\)/\<close>\<close>

definition install_re :: "tok list" where
  "install_re = [Lit open_lit, Some1, Lit sep_lit, Any0, Lit close_lit]"

section \<open>Parsed types\<close>

text \<open>
  The four interfaces of \<^verbatim>\<open>stack-data.utils.ts\<close>. TypeScript types are structural:
  \<^verbatim>\<open>StackInspection\<close> and \<^verbatim>\<open>StackTensioning\<close> declare the same fields and are one
  type, and every interface starts with the identifier.
\<close>

record StackEntry =
  "identifier" :: string

record StackReplacement = StackEntry +
  removed_serial_number :: string
  added_serial_number :: string
  stack_symptom :: string
  stack_symptom_confirmed :: bool

record StackInstall = StackEntry +
  serial_number :: string

record StackInspection = StackInstall +
  insight :: string
  completed :: bool

type_synonym StackTensioning = StackInspection

section \<open>Parsing (string to typed objects)\<close>

definition replacement_of_segment :: "string \<Rightarrow> StackReplacement option" where
  "replacement_of_segment r =
     (case re_match replacement_re r of
        Some [m1, m2, m3, m4, m5] \<Rightarrow>
          Some \<lparr>identifier = m1, removed_serial_number = m2, added_serial_number = m3,
                stack_symptom = m4, stack_symptom_confirmed = (m5 = ''true'')\<rparr>
      | _ \<Rightarrow> None)"

definition parseStackReplacements :: "string option \<Rightarrow> StackReplacement list" where
  "parseStackReplacements raw =
     (case raw of
        None \<Rightarrow> []
      | Some s \<Rightarrow>
          if s = [] then []
          else non_null (map replacement_of_segment
                 (filter (\<lambda>r. trim r \<noteq> []) (split_semis s))))"

definition inspection_of_segment :: "string \<Rightarrow> StackInspection option" where
  "inspection_of_segment r =
     (case re_match four_field_re r of
        Some [m1, m2, m3, m4] \<Rightarrow>
          Some \<lparr>identifier = m1, serial_number = m2, insight = m3,
                completed = (m4 = ''true'')\<rparr>
      | _ \<Rightarrow>
         (case re_match three_field_re r of
            Some [o1, o2, o3] \<Rightarrow>
              Some \<lparr>identifier = o1, serial_number = o2, insight = o3, completed = False\<rparr>
          | _ \<Rightarrow> None))"

definition parseStackInspections :: "string option \<Rightarrow> StackInspection list" where
  "parseStackInspections raw =
     (case raw of
        None \<Rightarrow> []
      | Some s \<Rightarrow>
          if s = [] then []
          else non_null (map inspection_of_segment
                 (filter (\<lambda>r. trim r \<noteq> []) (split_semis s))))"

definition tensioning_of_segment :: "string \<Rightarrow> StackTensioning option" where
  "tensioning_of_segment r =
     (case re_match four_field_re r of
        Some [m1, m2, m3, m4] \<Rightarrow>
          Some \<lparr>identifier = m1, serial_number = m2, insight = m3,
                completed = (m4 = ''true'')\<rparr>
      | _ \<Rightarrow> None)"

definition parseStackTensioning :: "string option \<Rightarrow> StackTensioning list" where
  "parseStackTensioning raw =
     (case raw of
        None \<Rightarrow> []
      | Some s \<Rightarrow>
          if s = [] then []
          else non_null (map tensioning_of_segment
                 (filter (\<lambda>r. trim r \<noteq> []) (split_semis s))))"

definition install_of_segment :: "string \<Rightarrow> StackInstall option" where
  "install_of_segment r =
     (case re_match install_re r of
        Some [m1, m2] \<Rightarrow> Some \<lparr>identifier = m1, serial_number = m2\<rparr>
      | _ \<Rightarrow> None)"

definition parseStackInstalls :: "string option \<Rightarrow> StackInstall list" where
  "parseStackInstalls raw =
     (case raw of
        None \<Rightarrow> []
      | Some s \<Rightarrow>
          if s = [] then []
          else non_null (map install_of_segment
                 (filter (\<lambda>r. trim r \<noteq> []) (split_semis s))))"

section \<open>Serialization (typed objects to string)\<close>

definition bool_text :: "bool \<Rightarrow> string" where
  "bool_text b = (if b then ''true'' else ''false'')"

definition replacement_tuple :: "StackReplacement \<Rightarrow> string" where
  "replacement_tuple i =
     open_lit @ identifier i @ sep_lit @ removed_serial_number i @ sep_lit
       @ added_serial_number i @ sep_lit @ stack_symptom i @ sep_lit
       @ bool_text (stack_symptom_confirmed i) @ close_lit"

definition serializeStackReplacements :: "StackReplacement list \<Rightarrow> string" where
  "serializeStackReplacements items = join_semis (map replacement_tuple items) @ [semi]"

definition inspection_tuple :: "StackInspection \<Rightarrow> string" where
  "inspection_tuple i =
     open_lit @ identifier i @ sep_lit @ serial_number i @ sep_lit @ insight i @ sep_lit
       @ bool_text (completed i) @ close_lit"

definition serializeStackInspections :: "StackInspection list \<Rightarrow> string" where
  "serializeStackInspections items = join_semis (map inspection_tuple items) @ [semi]"

definition serializeStackTensioning :: "StackTensioning list \<Rightarrow> string" where
  "serializeStackTensioning items = join_semis (map inspection_tuple items) @ [semi]"

definition install_tuple :: "StackInstall \<Rightarrow> string" where
  "install_tuple i = open_lit @ identifier i @ sep_lit @ serial_number i @ close_lit"

definition serializeStackInstalls :: "StackInstall list \<Rightarrow> string" where
  "serializeStackInstalls items = join_semis (map install_tuple items) @ [semi]"

text \<open>The text of a tuple of the old three-field format, which no serializer writes any more.\<close>

definition legacy_tuple :: "string \<Rightarrow> string \<Rightarrow> string \<Rightarrow> string" where
  "legacy_tuple i s t = open_lit @ i @ sep_lit @ s @ sep_lit @ t @ close_lit"

section \<open>Helpers\<close>

definition ALL_STACK_IDENTIFIERS :: "string list" where
  "ALL_STACK_IDENTIFIERS = [''a'', ''b'', ''c'', ''d'', ''e'']"

text \<open>
  \<^verbatim>\<open>ALL_STACK_IDENTIFIERS.slice(0, stackCount)\<close> for an integral count: a negative end
  counts from the end of the array, and both ends are clamped to the array.
\<close>

definition getStackIdentifiers :: "int \<Rightarrow> string list" where
  "getStackIdentifiers stackCount =
     take (nat (if stackCount < 0 then int (length ALL_STACK_IDENTIFIERS) + stackCount
                else stackCount))
       ALL_STACK_IDENTIFIERS"

section \<open>Notions for the statements about the codec\<close>

text \<open>
  The number of single quotes of a text, and of the literals of a pattern: a pattern
  matches only inside a text that has at least the quotes of its literals.
\<close>

definition quotes :: "string \<Rightarrow> nat" where
  "quotes s = length (filter (\<lambda>c. c = sq) s)"

fun lit_quotes :: "tok list \<Rightarrow> nat" where
  "lit_quotes [] = 0"
| "lit_quotes (Lit l # ts) = quotes l + lit_quotes ts"
| "lit_quotes (t # ts) = lit_quotes ts"

text \<open>The number of capturing groups of a pattern.\<close>

fun groups :: "tok list \<Rightarrow> nat" where
  "groups [] = 0"
| "groups (Lit l # ts) = groups ts"
| "groups (t # ts) = Suc (groups ts)"

text \<open>
  A well-formed sub-record in the words of the specification: the identifier is one of
  \<open>a\<close> to \<open>e\<close> and no field value contains a single quote. The second predicate of each
  shape says that no field value contains a semicolon either.
\<close>

definition quote_free :: "string \<Rightarrow> bool" where
  "quote_free s = (sq \<notin> set s)"

definition semi_free :: "string \<Rightarrow> bool" where
  "semi_free s = (semi \<notin> set s)"

definition well_formed_replacement :: "StackReplacement \<Rightarrow> bool" where
  "well_formed_replacement r =
     (identifier r \<in> set ALL_STACK_IDENTIFIERS \<and> quote_free (removed_serial_number r)
      \<and> quote_free (added_serial_number r) \<and> quote_free (stack_symptom r))"

definition semicolon_free_replacement :: "StackReplacement \<Rightarrow> bool" where
  "semicolon_free_replacement r =
     (semi_free (removed_serial_number r) \<and> semi_free (added_serial_number r)
      \<and> semi_free (stack_symptom r))"

definition well_formed_inspection :: "StackInspection \<Rightarrow> bool" where
  "well_formed_inspection r =
     (identifier r \<in> set ALL_STACK_IDENTIFIERS \<and> quote_free (serial_number r)
      \<and> quote_free (insight r))"

definition semicolon_free_inspection :: "StackInspection \<Rightarrow> bool" where
  "semicolon_free_inspection r = (semi_free (serial_number r) \<and> semi_free (insight r))"

definition well_formed_install :: "StackInstall \<Rightarrow> bool" where
  "well_formed_install r =
     (identifier r \<in> set ALL_STACK_IDENTIFIERS \<and> quote_free (serial_number r))"

definition semicolon_free_install :: "StackInstall \<Rightarrow> bool" where
  "semicolon_free_install r = semi_free (serial_number r)"

text \<open>Sample lists of sub-records.\<close>

definition replacement_ab :: "StackReplacement list" where
  "replacement_ab =
     [\<lparr>identifier = ''a'', removed_serial_number = ''SN-100'', added_serial_number = ''SN-200'',
        stack_symptom = ''Coolant leak'', stack_symptom_confirmed = True\<rparr>,
      \<lparr>identifier = ''b'', removed_serial_number = [], added_serial_number = ''SN-201'',
        stack_symptom = [], stack_symptom_confirmed = False\<rparr>]"

definition inspection_ab :: "StackInspection list" where
  "inspection_ab =
     [\<lparr>identifier = ''a'', serial_number = ''SN-100'', insight = ''no damage'', completed = True\<rparr>,
      \<lparr>identifier = ''b'', serial_number = [], insight = ''to be done'', completed = False\<rparr>]"

definition install_ab :: "StackInstall list" where
  "install_ab =
     [\<lparr>identifier = ''a'', serial_number = ''SN-100''\<rparr>,
      \<lparr>identifier = ''b'', serial_number = ''SN-101''\<rparr>]"

definition inspection_semicolon :: "StackInspection list" where
  "inspection_semicolon =
     [\<lparr>identifier = ''a'', serial_number = ''SN-100'', insight = ''worn; replace soon'',
        completed = True\<rparr>]"

section \<open>JavaScript values\<close>

text \<open>
  A submitted form value is a \<^verbatim>\<open>Record<string, any>\<close>: the handlers and the category
  configurations read it by key, test what they find for truthiness and copy it into the
  patch. The values are modelled as they are at run time. A number is an integer or NaN
  (epoch milliseconds are the only numbers the code computes); an object is the list of its
  own properties, the first binding of a key being the property.
\<close>

datatype jsval =
    JUndefined
  | JNull
  | JBool bool
  | JNum int
  | JNaN
  | JStr string
  | JArr "jsval list"
  | JObj "(string \<times> jsval) list"

type_synonym obj = "(string \<times> jsval) list"

text \<open>The conversion to boolean of \<^verbatim>\<open>if (x)\<close>, \<^verbatim>\<open>!x\<close>, \<^verbatim>\<open>x || y\<close> and \<^verbatim>\<open>x && y\<close>.\<close>

fun truthy :: "jsval \<Rightarrow> bool" where
  "truthy JUndefined = False"
| "truthy JNull = False"
| "truthy (JBool b) = b"
| "truthy (JNum n) = (n \<noteq> 0)"
| "truthy JNaN = False"
| "truthy (JStr s) = (s \<noteq> [])"
| "truthy (JArr xs) = True"
| "truthy (JObj ps) = True"

definition nullish :: "jsval \<Rightarrow> bool" where
  "nullish x = (x = JUndefined \<or> x = JNull)"

text \<open>\<^verbatim>\<open>a || b\<close> and \<^verbatim>\<open>a ?? b\<close>.\<close>

definition js_or :: "jsval \<Rightarrow> jsval \<Rightarrow> jsval" where
  "js_or a b = (if truthy a then a else b)"

definition js_nc :: "jsval \<Rightarrow> jsval \<Rightarrow> jsval" where
  "js_nc a b = (if nullish a then b else a)"

text \<open>\<^verbatim>\<open>value[key]\<close> on an object: the property, or \<^verbatim>\<open>undefined\<close>.\<close>

definition jsget :: "obj \<Rightarrow> string \<Rightarrow> jsval" where
  "jsget ps k = (case map_of ps k of None \<Rightarrow> JUndefined | Some x \<Rightarrow> x)"

text \<open>
  \<^verbatim>\<open>x[key]\<close> on a value that is neither null nor undefined, for the keys this code reads
  (field keys such as \<^verbatim>\<open>insight_a\<close> and \<^verbatim>\<open>tag_number\<close>, never \<^verbatim>\<open>length\<close> or an index):
  the property of an object, \<^verbatim>\<open>undefined\<close> on a primitive value or an array.
\<close>

definition getprop :: "jsval \<Rightarrow> string \<Rightarrow> jsval" where
  "getprop x k = (case x of JObj ps \<Rightarrow> jsget ps k | _ \<Rightarrow> JUndefined)"

definition is_array :: "jsval \<Rightarrow> bool" where
  "is_array x = (case x of JArr xs \<Rightarrow> True | _ \<Rightarrow> False)"

text \<open>
  The text a template literal \<^verbatim>\<open>`${x}`\<close> writes for a value: decimal digits for an integer
  (below \<open>10\<^sup>2\<^sup>1\<close> in magnitude), the elements joined by commas for an array (null and
  undefined elements as the empty text).
\<close>

fun digits :: "nat \<Rightarrow> string" where
  "digits n = (if n < 10 then [char_of (48 + n)] else digits (n div 10) @ [char_of (48 + n mod 10)])"

declare digits.simps [simp del]

definition int_text :: "int \<Rightarrow> string" where
  "int_text n = (if n < 0 then CHR 0x2D # digits (nat (- n)) else digits (nat n))"

fun join_commas :: "string list \<Rightarrow> string" where
  "join_commas [] = []"
| "join_commas [x] = x"
| "join_commas (x # y # ys) = x @ [CHR 0x2C] @ join_commas (y # ys)"

fun js_to_string :: "jsval \<Rightarrow> string" where
  "js_to_string JUndefined = ''undefined''"
| "js_to_string JNull = ''null''"
| "js_to_string (JBool b) = (if b then ''true'' else ''false'')"
| "js_to_string (JNum n) = int_text n"
| "js_to_string JNaN = ''NaN''"
| "js_to_string (JStr s) = s"
| "js_to_string (JArr xs) =
     join_commas (map (\<lambda>x. if x = JUndefined \<or> x = JNull then [] else js_to_string x) xs)"
| "js_to_string (JObj ps) = ''[object Object]''"

section \<open>Extraction of sub-records from a form value\<close>

text \<open>
  Each extractor is a loop over the active stack identifiers that pushes a sub-record when
  a presence-determining field of the identifier's group is truthy. The loop is the
  recursion over the identifiers, the array \<^verbatim>\<open>items\<close> its accumulator.

  The interfaces declare the text fields as strings, and the form inputs behind them
  deliver strings. The right-hand side \<^verbatim>\<open>group[key] || ""\<close> is whatever truthy value the
  group holds; the only reader of a text field, the serializer's template literal, writes
  the text of that value, and the model stores this text in the record.
\<close>

fun replacements_loop :: "obj \<Rightarrow> string list \<Rightarrow> StackReplacement list \<Rightarrow> StackReplacement list" where
  "replacements_loop form [] items = items"
| "replacements_loop form (sid # ids) items =
     (let group = js_or (jsget form (''stack_group_'' @ sid)) (JObj []);
          removed = js_or (getprop group (''removed_serial_number_'' @ sid)) (JStr []);
          added = js_or (getprop group (''added_serial_number_'' @ sid)) (JStr []);
          symptom = js_or (getprop group (''stack_symptom_'' @ sid)) (JStr []);
          confirmed = truthy (getprop group (''stack_symptom_confirmed_'' @ sid))
      in if truthy removed \<or> truthy added
         then replacements_loop form ids
                (items @ [\<lparr>identifier = sid, removed_serial_number = js_to_string removed,
                           added_serial_number = js_to_string added,
                           stack_symptom = js_to_string symptom,
                           stack_symptom_confirmed = confirmed\<rparr>])
         else replacements_loop form ids items)"

definition extractStackReplacementsFromForm :: "obj \<Rightarrow> int \<Rightarrow> StackReplacement list" where
  "extractStackReplacementsFromForm form stackCount =
     replacements_loop form (getStackIdentifiers stackCount) []"

fun inspections_loop :: "obj \<Rightarrow> string list \<Rightarrow> StackInspection list \<Rightarrow> StackInspection list" where
  "inspections_loop form [] items = items"
| "inspections_loop form (sid # ids) items =
     (let group = js_or (jsget form (''stack_group_inspection_'' @ sid)) (JObj []);
          serial = js_or (getprop group (''stack_serial_number_'' @ sid)) (JStr []);
          insight_text = js_or (getprop group (''insight_'' @ sid)) (JStr []);
          done = truthy (getprop group (''stack_completed_'' @ sid))
      in if truthy serial \<or> truthy insight_text
         then inspections_loop form ids
                (items @ [\<lparr>identifier = sid, serial_number = js_to_string serial,
                           insight = js_to_string insight_text, completed = done\<rparr>])
         else inspections_loop form ids items)"

definition extractStackInspectionsFromForm :: "obj \<Rightarrow> int \<Rightarrow> StackInspection list" where
  "extractStackInspectionsFromForm form stackCount =
     inspections_loop form (getStackIdentifiers stackCount) []"

fun tensioning_loop :: "obj \<Rightarrow> string list \<Rightarrow> StackTensioning list \<Rightarrow> StackTensioning list" where
  "tensioning_loop form [] items = items"
| "tensioning_loop form (sid # ids) items =
     (let group = js_or (jsget form (''stack_group_tensioning_'' @ sid)) (JObj []);
          serial = js_or (getprop group (''stack_serial_number_'' @ sid)) (JStr []);
          insight_text = js_or (getprop group (''insight_'' @ sid)) (JStr []);
          done = truthy (getprop group (''stack_completed_'' @ sid))
      in if truthy serial \<or> truthy insight_text
         then tensioning_loop form ids
                (items @ [\<lparr>identifier = sid, serial_number = js_to_string serial,
                           insight = js_to_string insight_text, completed = done\<rparr>])
         else tensioning_loop form ids items)"

definition extractStackTensioningFromForm :: "obj \<Rightarrow> int \<Rightarrow> StackTensioning list" where
  "extractStackTensioningFromForm form stackCount =
     tensioning_loop form (getStackIdentifiers stackCount) []"

fun installs_loop :: "obj \<Rightarrow> string list \<Rightarrow> StackInstall list \<Rightarrow> StackInstall list" where
  "installs_loop form [] items = items"
| "installs_loop form (sid # ids) items =
     (let group = js_or (jsget form (''stack_group_installs_'' @ sid)) (JObj []);
          serial = js_or (getprop group (''stack_serial_number_'' @ sid)) (JStr [])
      in if truthy serial
         then installs_loop form ids
                (items @ [\<lparr>identifier = sid, serial_number = js_to_string serial\<rparr>])
         else installs_loop form ids items)"

definition extractStackInstallsFromForm :: "obj \<Rightarrow> int \<Rightarrow> StackInstall list" where
  "extractStackInstallsFromForm form stackCount =
     installs_loop form (getStackIdentifiers stackCount) []"

section \<open>The category registry\<close>

text \<open>
  \<^verbatim>\<open>CategoryFormHelpers\<close>: \<^verbatim>\<open>getStackCount\<close> is a function without arguments and is
  modelled by the number it returns, \<^verbatim>\<open>getLatestSerials\<close> by the map it returns.
\<close>

record CategoryFormHelpers =
  getStackCount :: int
  getLatestSerials :: "string \<rightharpoonup> string"
  isEdit :: bool

text \<open>
  A patch is a \<^verbatim>\<open>Partial<Note>\<close> built with object literals, \<^verbatim>\<open>Object.assign\<close> and
  assignments: a map from keys to values. The only exception the modelled code can raise
  is the \<^verbatim>\<open>TypeError\<close> of reading \<^verbatim>\<open>item.tag_number\<close> on a null or undefined item.
\<close>

type_synonym patch = "string \<rightharpoonup> jsval"

datatype error = TypeError

text \<open>\<^verbatim>\<open>typeof item === "string" ? item : item.tag_number\<close>\<close>

fun tag_item :: "jsval \<Rightarrow> error + jsval" where
  "tag_item (JStr s) = Inr (JStr s)"
| "tag_item JUndefined = Inl TypeError"
| "tag_item JNull = Inl TypeError"
| "tag_item x = Inr (getprop x ''tag_number'')"

fun map_tags :: "jsval list \<Rightarrow> error + jsval list" where
  "map_tags [] = Inr []"
| "map_tags (x # xs) =
     (case tag_item x of
        Inl e \<Rightarrow> Inl e
      | Inr y \<Rightarrow> (case map_tags xs of Inl e \<Rightarrow> Inl e | Inr ys \<Rightarrow> Inr (y # ys)))"

text \<open>
  \<^verbatim>\<open>CategoryConfig\<close>. The field \<^verbatim>\<open>value\<close> of the source is \<open>cfg_value\<close> here. Of the form
  inputs only the keys are modelled, and the two display operations (\<^verbatim>\<open>renderHtml\<close>,
  \<^verbatim>\<open>getReadOnlyInputs\<close>) and \<^verbatim>\<open>getEditInitialValue\<close> are left out: they build what a
  dialog shows, not what is stored.
\<close>

record CategoryConfig =
  cfg_value :: string
  label :: string
  internalOnly :: bool
  getFormInputs :: "CategoryFormHelpers \<Rightarrow> string list"
  serializeFormValue :: "obj \<Rightarrow> CategoryFormHelpers \<Rightarrow> error + patch"
  validate :: "(obj \<Rightarrow> CategoryFormHelpers \<Rightarrow> string option) option"

definition buildStackGroupInputs :: "string \<Rightarrow> string list \<Rightarrow> string list" where
  "buildStackGroupInputs prefix identifiers = map (\<lambda>sid. prefix @ ''_'' @ sid) identifiers"

definition serialize_tag_numbers :: "obj \<Rightarrow> CategoryFormHelpers \<Rightarrow> error + patch" where
  "serialize_tag_numbers form helpers =
     (case jsget form ''tag_numbers'' of
        JArr tagNumbers \<Rightarrow>
          (case map_tags tagNumbers of
             Inl e \<Rightarrow> Inl e
           | Inr tags \<Rightarrow> Inr [''tag_numbers'' \<mapsto> JArr tags])
      | _ \<Rightarrow> Inr [''tag_numbers'' \<mapsto> JNull])"

definition calibration :: CategoryConfig where
  "calibration =
     \<lparr>cfg_value = ''Calibration'', label = ''Calibration'', internalOnly = False,
      getFormInputs = (\<lambda>helpers. [''tag_numbers'']),
      serializeFormValue = serialize_tag_numbers,
      validate = None\<rparr>"

definition softwareUpdate :: CategoryConfig where
  "softwareUpdate =
     \<lparr>cfg_value = ''Software update'', label = ''Software update'', internalOnly = False,
      getFormInputs = (\<lambda>helpers. [''software_type'', ''version'']),
      serializeFormValue = (\<lambda>form helpers.
        Inr [''software_type'' \<mapsto> js_or (jsget form ''software_type'') JNull,
             ''version'' \<mapsto> js_or (jsget form ''version'') JNull]),
      validate = None\<rparr>"

definition settingsChange :: CategoryConfig where
  "settingsChange =
     \<lparr>cfg_value = ''Settings change'', label = ''Settings change'', internalOnly = False,
      getFormInputs = (\<lambda>helpers. [''tag_numbers'']),
      serializeFormValue = serialize_tag_numbers,
      validate = None\<rparr>"

definition stackReplacements :: CategoryConfig where
  "stackReplacements =
     \<lparr>cfg_value = ''Stack replacements'', label = ''Stack replacements'', internalOnly = True,
      getFormInputs = (\<lambda>helpers.
        ''workorder_id''
          # buildStackGroupInputs ''stack_group'' (getStackIdentifiers (getStackCount helpers))),
      serializeFormValue = (\<lambda>form helpers.
        let items = extractStackReplacementsFromForm form (getStackCount helpers)
        in Inr [''workorder_id'' \<mapsto> js_or (jsget form ''workorder_id'') JNull,
                ''stack_replacements'' \<mapsto>
                  (if length items > 0 then JStr (serializeStackReplacements items) else JNull)]),
      validate = Some (\<lambda>form helpers.
        let items = extractStackReplacementsFromForm form (getStackCount helpers)
        in if length items = 0 then Some ''At least one stack replacement must be filled in.''
           else None)\<rparr>"

definition stackInspection :: CategoryConfig where
  "stackInspection =
     \<lparr>cfg_value = ''Stack inspection'', label = ''Stack visual inspection'', internalOnly = True,
      getFormInputs = (\<lambda>helpers.
        buildStackGroupInputs ''stack_group_inspection''
          (getStackIdentifiers (getStackCount helpers))),
      serializeFormValue = (\<lambda>form helpers.
        let items = extractStackInspectionsFromForm form (getStackCount helpers)
        in Inr [''stack_inspections'' \<mapsto>
                  (if length items > 0 then JStr (serializeStackInspections items) else JNull)]),
      validate = Some (\<lambda>form helpers.
        let items = extractStackInspectionsFromForm form (getStackCount helpers)
        in if length items = 0 then Some ''At least one stack inspection must be filled in.''
           else None)\<rparr>"

definition stackTensioning :: CategoryConfig where
  "stackTensioning =
     \<lparr>cfg_value = ''Stack tensioning'', label = ''Stack tensioning'', internalOnly = True,
      getFormInputs = (\<lambda>helpers.
        buildStackGroupInputs ''stack_group_tensioning''
          (getStackIdentifiers (getStackCount helpers))),
      serializeFormValue = (\<lambda>form helpers.
        let items = extractStackTensioningFromForm form (getStackCount helpers)
        in Inr [''stack_tensioning'' \<mapsto>
                  (if length items > 0 then JStr (serializeStackTensioning items) else JNull)]),
      validate = Some (\<lambda>form helpers.
        let items = extractStackTensioningFromForm form (getStackCount helpers)
        in if length items = 0 then Some ''At least one stack tensioning must be filled in.''
           else None)\<rparr>"

definition stackInstalls :: CategoryConfig where
  "stackInstalls =
     \<lparr>cfg_value = ''Stack installs'', label = ''Stack installs'', internalOnly = True,
      getFormInputs = (\<lambda>helpers.
        buildStackGroupInputs ''stack_group_installs''
          (getStackIdentifiers (getStackCount helpers))),
      serializeFormValue = (\<lambda>form helpers.
        let items = extractStackInstallsFromForm form (getStackCount helpers)
        in Inr [''stack_installs'' \<mapsto>
                  (if length items > 0 then JStr (serializeStackInstalls items) else JNull)]),
      validate = Some (\<lambda>form helpers.
        let items = extractStackInstallsFromForm form (getStackCount helpers)
        in if length items = 0 then Some ''At least one stack install must be filled in.''
           else None)\<rparr>"

definition other :: CategoryConfig where
  "other =
     \<lparr>cfg_value = ''Other'', label = ''Other'', internalOnly = False,
      getFormInputs = (\<lambda>helpers. []),
      serializeFormValue = (\<lambda>form helpers. Inr Map.empty),
      validate = None\<rparr>"

text \<open>All category configurations, in display order.\<close>

definition CATEGORY_CONFIGS :: "CategoryConfig list" where
  "CATEGORY_CONFIGS =
     [calibration, softwareUpdate, settingsChange, stackReplacements, stackInspection,
      stackTensioning, stackInstalls, other]"

text \<open>
  \<^verbatim>\<open>new Map(CATEGORY_CONFIGS.map((c) => [c.value, c]))\<close>: the entries are set one after the
  other, so of two entries with one key the later one stays.
\<close>

definition configByValue :: "string \<rightharpoonup> CategoryConfig" where
  "configByValue = map_of (rev (map (\<lambda>c. (cfg_value c, c)) CATEGORY_CONFIGS))"

text \<open>
  \<^verbatim>\<open>noteCategory ? configByValue.get(noteCategory) : undefined\<close>. A key that is not a
  string equals no key of the map.
\<close>

definition getCategoryConfig :: "jsval \<Rightarrow> CategoryConfig option" where
  "getCategoryConfig noteCategory =
     (if truthy noteCategory
      then (case noteCategory of JStr s \<Rightarrow> configByValue s | _ \<Rightarrow> None)
      else None)"

text \<open>The options are pairs \<open>(value, label)\<close>.\<close>

definition getCategoryOptions :: "bool \<Rightarrow> (string \<times> string) list" where
  "getCategoryOptions isPlugPowerUser =
     map (\<lambda>c. (cfg_value c, label c))
       (filter (\<lambda>c. isPlugPowerUser \<or> \<not> internalOnly c) CATEGORY_CONFIGS)"

section \<open>The form handlers\<close>

text \<open>
  The \<^verbatim>\<open>Note\<close> record of \<^verbatim>\<open>types.ts\<close>; \<^verbatim>\<open>_id\<close> is \<open>note_id\<close> and \<^verbatim>\<open>text\<close> is
  \<open>note_text\<close> here. A field that may be null or absent is an option.
\<close>

record Note =
  note_id :: string
  user :: "string option"
  subject :: "string option"
  note_text :: string
  created_on :: int
  category :: "int option"
  note_category :: "string option"
  author_id :: "string option"
  author_name :: "string option"
  editor_id :: "string option"
  editor_name :: "string option"
  updated_on :: "int option"
  performed_on :: "int option"
  tag_numbers :: "string list option"
  version :: "string option"
  software_type :: "string option"
  external_note :: "bool option"
  stack_replacements :: "string option"
  workorder_id :: "string option"
  stack_inspections :: "string option"
  stack_installs :: "string option"
  stack_tensioning :: "string option"

definition category_of :: "Note \<Rightarrow> jsval" where
  "category_of note = (case note_category note of None \<Rightarrow> JNull | Some s \<Rightarrow> JStr s)"

text \<open>
  luxon is a library outside the repository. A \<^verbatim>\<open>DateTime\<close> is valid, with its epoch
  milliseconds, or invalid; \<^verbatim>\<open>toMillis\<close> of an invalid one is NaN. What
  \<^verbatim>\<open>DateTime.fromISO\<close> makes of a text is a parameter \<open>fromISO\<close> of every handler.
\<close>

datatype DateTime = Valid int | Invalid

fun isValid :: "DateTime \<Rightarrow> bool" where
  "isValid (Valid ms) = True"
| "isValid Invalid = False"

fun toMillis :: "DateTime \<Rightarrow> jsval" where
  "toMillis (Valid ms) = JNum ms"
| "toMillis Invalid = JNaN"

text \<open>The keys of the inputs, in the order of the source.\<close>

definition buildCommonInputs :: "jsval \<Rightarrow> bool \<Rightarrow> string list" where
  "buildCommonInputs cat isPlugPowerUser =
     ''text'' # (if isPlugPowerUser then [''external_note''] else [])"

definition buildFullInputs :: "jsval \<Rightarrow> CategoryFormHelpers \<Rightarrow> bool \<Rightarrow> string list" where
  "buildFullInputs cat helpers isPlugPowerUser =
     ''performed_on''
       # (case getCategoryConfig cat of None \<Rightarrow> [] | Some config \<Rightarrow> getFormInputs config helpers)
       @ buildCommonInputs cat isPlugPowerUser"

text \<open>
  The host's dialogs are the environment of a handler. A request to open a form dialog is
  modelled by what the claims are about: the key and options of the selection input of a
  category dialog, and the input keys and the \<^verbatim>\<open>initialValue\<close> argument (absent in the Add
  and Recategorize calls) of a fields dialog. Titles, labels and the read-only block that
  Recategorize shows of the current note are not modelled. The user answers a form dialog
  by submitting a value or by cancelling.

  A handler is a function from the answers the user gives, in order, to the trace of what
  the handler does: the dialogs it opens, the calls of the notes service, and the exception
  that ends it. A handler that has opened a dialog and has no answer left is suspended
  there, and its trace ends with that dialog.
\<close>

datatype request =
    CategoryDialog string "(string \<times> string) list"
  | FieldsDialog "string list" "obj option"

datatype response = Cancelled | Submitted obj

datatype effect =
    OpenFormDialog request
  | OpenAlertDialog string string
  | NotesAdd patch
  | NotesEdit string patch
  | Throw error

text \<open>What a handler does with one submitted form value.\<close>

datatype outcome = ValidationError string | Threw error | Persist patch

text \<open>
  \<^verbatim>\<open>if (config?.validate) { const error = config.validate(value, helpers); if (error) ... }\<close>:
  the message, when there is a validator and its result is truthy.
\<close>

definition validation_error :: "CategoryConfig option \<Rightarrow> obj \<Rightarrow> CategoryFormHelpers \<Rightarrow> string option" where
  "validation_error config form helpers =
     (case config of
        None \<Rightarrow> None
      | Some c \<Rightarrow>
          (case validate c of
             None \<Rightarrow> None
           | Some check \<Rightarrow>
               (case check form helpers of
                  None \<Rightarrow> None
                | Some message \<Rightarrow> if message = [] then None else Some message)))"

text \<open>\<^verbatim>\<open>if (config) Object.assign(noteData, config.serializeFormValue(value, helpers))\<close>\<close>

definition serialized_fields :: "CategoryConfig option \<Rightarrow> obj \<Rightarrow> CategoryFormHelpers \<Rightarrow> error + patch" where
  "serialized_fields config form helpers =
     (case config of None \<Rightarrow> Inr Map.empty | Some c \<Rightarrow> serializeFormValue c form helpers)"

text \<open>\<^verbatim>\<open>isPlugPowerUser ? (value.external_note ?? false) : true\<close>\<close>

definition external_note_of :: "bool \<Rightarrow> obj \<Rightarrow> jsval" where
  "external_note_of isPlugPowerUser form =
     (if isPlugPowerUser then js_nc (jsget form ''external_note'') (JBool False) else JBool True)"

text \<open>The value a patch holds for a key, \<^verbatim>\<open>undefined\<close> when it has none.\<close>

definition patch_get :: "patch \<Rightarrow> string \<Rightarrow> jsval" where
  "patch_get p k = (case p k of None \<Rightarrow> JUndefined | Some x \<Rightarrow> x)"

text \<open>
  The block \<^verbatim>\<open>Transform tag_numbers\<close> of Edit and Recategorize: when the value is an array
  (an array is truthy), the patch gets the array with every item that is not a string
  replaced by its \<^verbatim>\<open>tag_number\<close>.
\<close>

definition transform_tags :: "jsval \<Rightarrow> patch \<Rightarrow> error + patch" where
  "transform_tags tagNumbers updatedNote =
     (case tagNumbers of
        JArr items \<Rightarrow>
          (case map_tags items of
             Inl e \<Rightarrow> Inl e
           | Inr tags \<Rightarrow> Inr (updatedNote(''tag_numbers'' \<mapsto> JArr tags)))
      | _ \<Rightarrow> Inr updatedNote)"

subsection \<open>Add\<close>

definition add_submit ::
  "(jsval \<Rightarrow> DateTime) \<Rightarrow> CategoryFormHelpers \<Rightarrow> bool \<Rightarrow> jsval \<Rightarrow> obj \<Rightarrow> outcome" where
  "add_submit fromISO helpers isPlugPowerUser cat form =
     (let config = getCategoryConfig cat in
      case validation_error config form helpers of
        Some message \<Rightarrow> ValidationError message
      | None \<Rightarrow>
         (let noteData = [''note_category'' \<mapsto> cat,
                          ''external_note'' \<mapsto> external_note_of isPlugPowerUser form] in
          case serialized_fields config form helpers of
            Inl e \<Rightarrow> Threw e
          | Inr serialized \<Rightarrow>
             (let noteData = noteData ++ serialized;
                  performedOnDate = fromISO (jsget form ''performed_on'');
                  noteData =
                    (if truthy (jsget form ''performed_on'') \<and> isValid performedOnDate
                     then noteData(''performed_on'' \<mapsto> toMillis performedOnDate)
                     else noteData);
                  restOfValue = (map_of form)(''performed_on'' := None, ''external_note'' := None)
              in Persist (noteData ++ restOfValue))))"

datatype add_step = Step_category | Step_note

function add_loop ::
  "(jsval \<Rightarrow> DateTime) \<Rightarrow> CategoryFormHelpers \<Rightarrow> bool \<Rightarrow> add_step \<Rightarrow> jsval \<Rightarrow> response list
     \<Rightarrow> effect list" where
  "add_loop fromISO helpers pp Step_category cat [] =
     [OpenFormDialog (CategoryDialog ''category'' (getCategoryOptions pp))]"
| "add_loop fromISO helpers pp Step_category cat (Cancelled # rs) =
     [OpenFormDialog (CategoryDialog ''category'' (getCategoryOptions pp))]"
| "add_loop fromISO helpers pp Step_category cat (Submitted form # rs) =
     OpenFormDialog (CategoryDialog ''category'' (getCategoryOptions pp))
       # add_loop fromISO helpers pp Step_note (jsget form ''category'') rs"
| "add_loop fromISO helpers pp Step_note cat rs =
     (if \<not> truthy cat then add_loop fromISO helpers pp Step_category cat rs
      else OpenFormDialog (FieldsDialog (buildFullInputs cat helpers pp) None)
        # (case rs of
             [] \<Rightarrow> []
           | Cancelled # rs' \<Rightarrow> add_loop fromISO helpers pp Step_category cat rs'
           | Submitted form # rs' \<Rightarrow>
               (case add_submit fromISO helpers pp cat form of
                  ValidationError message \<Rightarrow>
                    OpenAlertDialog ''Validation Error'' message
                      # add_loop fromISO helpers pp Step_note cat rs'
                | Threw e \<Rightarrow> [Throw e]
                | Persist noteData \<Rightarrow> [NotesAdd noteData])))"
  by pat_completeness auto
termination
  by (relation "measure (\<lambda>(fromISO, helpers, pp, step, cat, rs).
        2 * length rs + (case step of Step_category \<Rightarrow> 0 | Step_note \<Rightarrow> 1))") auto

declare add_loop.simps [simp del]

definition handleAddNote ::
  "(jsval \<Rightarrow> DateTime) \<Rightarrow> CategoryFormHelpers \<Rightarrow> bool \<Rightarrow> response list \<Rightarrow> effect list" where
  "handleAddNote fromISO helpers isPlugPowerUser rs =
     add_loop fromISO helpers isPlugPowerUser Step_category JNull rs"

subsection \<open>Edit\<close>

text \<open>
  \<^verbatim>\<open>initialValue\<close>, which the source builds from the note, its date in ISO format and
  \<^verbatim>\<open>getEditInitialValue\<close>, is an argument of the model of \<^verbatim>\<open>handleEditNote\<close>: the
  handler passes it to the dialog and never reads it again.
\<close>

definition edit_submit ::
  "(jsval \<Rightarrow> DateTime) \<Rightarrow> CategoryFormHelpers \<Rightarrow> bool \<Rightarrow> Note \<Rightarrow> obj \<Rightarrow> outcome" where
  "edit_submit fromISO helpers isPlugPowerUser note form =
     (let editHelpers = helpers\<lparr>isEdit := True\<rparr>;
          config = getCategoryConfig (category_of note);
          updatedNote = (map_of form)(''performed_on'' := None);
          updatedNote =
            (if truthy (jsget form ''performed_on'')
             then updatedNote(''performed_on'' \<mapsto> toMillis (fromISO (jsget form ''performed_on'')))
             else updatedNote) in
      case transform_tags (patch_get updatedNote ''tag_numbers'') updatedNote of
        Inl e \<Rightarrow> Threw e
      | Inr updatedNote \<Rightarrow>
         (case validation_error config form editHelpers of
            Some message \<Rightarrow> ValidationError message
          | None \<Rightarrow>
             (case serialized_fields config form editHelpers of
                Inl e \<Rightarrow> Threw e
              | Inr serialized \<Rightarrow> Persist (updatedNote ++ serialized))))"

definition handleEditNote ::
  "(jsval \<Rightarrow> DateTime) \<Rightarrow> CategoryFormHelpers \<Rightarrow> bool \<Rightarrow> Note \<Rightarrow> obj \<Rightarrow> response list
     \<Rightarrow> effect list" where
  "handleEditNote fromISO helpers isPlugPowerUser note initialValue rs =
     OpenFormDialog
       (FieldsDialog
          (buildFullInputs (js_or (category_of note) (JStr ''Other''))
             (helpers\<lparr>isEdit := True\<rparr>) isPlugPowerUser)
          (Some initialValue))
       # (case rs of
            [] \<Rightarrow> []
          | Cancelled # rs' \<Rightarrow> []
          | Submitted form # rs' \<Rightarrow>
              (case edit_submit fromISO helpers isPlugPowerUser note form of
                 ValidationError message \<Rightarrow> [OpenAlertDialog ''Validation Error'' message]
               | Threw e \<Rightarrow> [Throw e]
               | Persist updatedNote \<Rightarrow> [NotesEdit (note_id note) updatedNote]))"

subsection \<open>Recategorize\<close>

text \<open>The eight assignments \<^verbatim>\<open>updatedNote.f = updatedNote.f ?? null\<close>, in the source's order.\<close>

definition category_owned_fields :: "string list" where
  "category_owned_fields =
     [''tag_numbers'', ''software_type'', ''version'', ''stack_replacements'', ''workorder_id'',
      ''stack_inspections'', ''stack_installs'', ''stack_tensioning'']"

fun clear_fields :: "string list \<Rightarrow> patch \<Rightarrow> patch" where
  "clear_fields [] p = p"
| "clear_fields (f # fs) p = clear_fields fs (p(f \<mapsto> js_nc (patch_get p f) JNull))"

definition recategorize_submit ::
  "(jsval \<Rightarrow> DateTime) \<Rightarrow> CategoryFormHelpers \<Rightarrow> bool \<Rightarrow> jsval \<Rightarrow> obj \<Rightarrow> outcome" where
  "recategorize_submit fromISO helpers isPlugPowerUser newCategory form =
     (let newConfig = getCategoryConfig newCategory in
      case validation_error newConfig form helpers of
        Some message \<Rightarrow> ValidationError message
      | None \<Rightarrow>
         (let updatedNote = [''note_category'' \<mapsto> newCategory,
                             ''external_note'' \<mapsto> external_note_of isPlugPowerUser form];
              date = fromISO (jsget form ''performed_on'');
              updatedNote =
                (if truthy (jsget form ''performed_on'') \<and> isValid date
                 then updatedNote(''performed_on'' \<mapsto> toMillis date)
                 else updatedNote) in
          case transform_tags (jsget form ''tag_numbers'') updatedNote of
            Inl e \<Rightarrow> Threw e
          | Inr updatedNote \<Rightarrow>
             (case serialized_fields newConfig form helpers of
                Inl e \<Rightarrow> Threw e
              | Inr serialized \<Rightarrow>
                 (let updatedNote = updatedNote ++ serialized;
                      updatedNote =
                        (if jsget form ''text'' \<noteq> JUndefined
                         then updatedNote(''text'' \<mapsto> jsget form ''text'')
                         else updatedNote)
                  in Persist (clear_fields category_owned_fields updatedNote)))))"

datatype recategorize_step = Step_select_category | Step_fill_new_fields

function recategorize_loop ::
  "(jsval \<Rightarrow> DateTime) \<Rightarrow> CategoryFormHelpers \<Rightarrow> bool \<Rightarrow> Note \<Rightarrow> recategorize_step \<Rightarrow> jsval
     \<Rightarrow> response list \<Rightarrow> effect list" where
  "recategorize_loop fromISO helpers pp note Step_select_category newCategory [] =
     [OpenFormDialog (CategoryDialog ''new_category'' (getCategoryOptions pp))]"
| "recategorize_loop fromISO helpers pp note Step_select_category newCategory (Cancelled # rs) =
     [OpenFormDialog (CategoryDialog ''new_category'' (getCategoryOptions pp))]"
| "recategorize_loop fromISO helpers pp note Step_select_category newCategory (Submitted form # rs) =
     OpenFormDialog (CategoryDialog ''new_category'' (getCategoryOptions pp))
       # recategorize_loop fromISO helpers pp note Step_fill_new_fields
           (jsget form ''new_category'') rs"
| "recategorize_loop fromISO helpers pp note Step_fill_new_fields newCategory rs =
     (if \<not> truthy newCategory
      then recategorize_loop fromISO helpers pp note Step_select_category newCategory rs
      else OpenFormDialog (FieldsDialog (buildFullInputs newCategory helpers pp) None)
        # (case rs of
             [] \<Rightarrow> []
           | Cancelled # rs' \<Rightarrow>
               recategorize_loop fromISO helpers pp note Step_select_category newCategory rs'
           | Submitted form # rs' \<Rightarrow>
               (case recategorize_submit fromISO helpers pp newCategory form of
                  ValidationError message \<Rightarrow>
                    OpenAlertDialog ''Validation Error'' message
                      # recategorize_loop fromISO helpers pp note Step_fill_new_fields
                          newCategory rs'
                | Threw e \<Rightarrow> [Throw e]
                | Persist updatedNote \<Rightarrow> [NotesEdit (note_id note) updatedNote])))"
  by pat_completeness auto
termination
  by (relation "measure (\<lambda>(fromISO, helpers, pp, note, step, newCategory, rs).
        2 * length rs + (case step of Step_select_category \<Rightarrow> 0 | Step_fill_new_fields \<Rightarrow> 1))")
    auto

declare recategorize_loop.simps [simp del]

definition handleRecategorizeNote ::
  "(jsval \<Rightarrow> DateTime) \<Rightarrow> CategoryFormHelpers \<Rightarrow> bool \<Rightarrow> Note \<Rightarrow> response list \<Rightarrow> effect list" where
  "handleRecategorizeNote fromISO helpers isPlugPowerUser note rs =
     recategorize_loop fromISO helpers isPlugPowerUser note Step_select_category JNull rs"

section \<open>The presence rule in the words of the specification\<close>

text \<open>
  The extraction rule as the specification states it, to be compared with the loops of the
  source: the group of an identifier (the empty group when the form has none), a field
  that is filled, the text and the flag read from a field, and the sub-records one
  identifier contributes, one or none.
\<close>

definition group_of :: "obj \<Rightarrow> string \<Rightarrow> string \<Rightarrow> jsval" where
  "group_of form prefix sid = js_or (jsget form (prefix @ sid)) (JObj [])"

definition filled :: "jsval \<Rightarrow> string \<Rightarrow> bool" where
  "filled grp key = truthy (getprop grp key)"

definition text_field :: "jsval \<Rightarrow> string \<Rightarrow> string" where
  "text_field grp key = js_to_string (js_or (getprop grp key) (JStr []))"

definition flag_field :: "jsval \<Rightarrow> string \<Rightarrow> bool" where
  "flag_field grp key = truthy (getprop grp key)"

definition replacement_entry :: "obj \<Rightarrow> string \<Rightarrow> StackReplacement list" where
  "replacement_entry form sid =
     (let g = group_of form ''stack_group_'' sid in
      if filled g (''removed_serial_number_'' @ sid) \<or> filled g (''added_serial_number_'' @ sid)
      then [\<lparr>identifier = sid,
             removed_serial_number = text_field g (''removed_serial_number_'' @ sid),
             added_serial_number = text_field g (''added_serial_number_'' @ sid),
             stack_symptom = text_field g (''stack_symptom_'' @ sid),
             stack_symptom_confirmed = flag_field g (''stack_symptom_confirmed_'' @ sid)\<rparr>]
      else [])"

definition inspection_entry :: "string \<Rightarrow> obj \<Rightarrow> string \<Rightarrow> StackInspection list" where
  "inspection_entry prefix form sid =
     (let g = group_of form prefix sid in
      if filled g (''stack_serial_number_'' @ sid) \<or> filled g (''insight_'' @ sid)
      then [\<lparr>identifier = sid,
             serial_number = text_field g (''stack_serial_number_'' @ sid),
             insight = text_field g (''insight_'' @ sid),
             completed = flag_field g (''stack_completed_'' @ sid)\<rparr>]
      else [])"

definition install_entry :: "obj \<Rightarrow> string \<Rightarrow> StackInstall list" where
  "install_entry form sid =
     (let g = group_of form ''stack_group_installs_'' sid in
      if filled g (''stack_serial_number_'' @ sid)
      then [\<lparr>identifier = sid, serial_number = text_field g (''stack_serial_number_'' @ sid)\<rparr>]
      else [])"

text \<open>Sample form values and helpers.\<close>

definition example_form :: obj where
  "example_form =
     [(''stack_group_a'', JObj [(''removed_serial_number_a'', JStr ''SN-100'')]),
      (''stack_group_b'', JObj [(''removed_serial_number_b'', JStr []),
                               (''added_serial_number_b'', JStr []),
                               (''stack_symptom_b'', JStr ''Coolant leak''),
                               (''stack_symptom_confirmed_b'', JBool True)]),
      (''stack_group_inspection_a'', JObj [(''insight_a'', JStr ''no damage'')]),
      (''stack_group_tensioning_b'', JObj [(''stack_serial_number_b'', JStr ''SN-101''),
                                          (''stack_completed_b'', JBool True)]),
      (''stack_group_installs_a'', JObj [(''stack_serial_number_a'', JStr ''SN-100'')]),
      (''stack_group_installs_b'', JObj [(''stack_serial_number_b'', JStr [])])]"

definition blank_form :: obj where
  "blank_form =
     [(''workorder_id'', JStr []),
      (''stack_group_a'', JObj [(''removed_serial_number_a'', JStr []),
                               (''added_serial_number_a'', JStr [])]),
      (''stack_group_inspection_a'', JObj [(''stack_completed_a'', JBool True)]),
      (''stack_group_installs_a'', JObj [(''stack_serial_number_a'', JStr [])]),
      (''text'', JStr ''nothing to report'')]"

definition five_stacks :: CategoryFormHelpers where
  "five_stacks = \<lparr>getStackCount = 5, getLatestSerials = Map.empty, isEdit = False\<rparr>"

section \<open>Notions and samples for the statements about the handlers\<close>

text \<open>
  The tag list of a form can be converted when no item of it is null or undefined. The
  sample \<open>fromISO\<close> knows one instant; the sample notes and forms are those of the
  statements below.
\<close>

definition tags_convertible :: "obj \<Rightarrow> bool" where
  "tags_convertible form =
     (case jsget form ''tag_numbers'' of
        JArr items \<Rightarrow> (case map_tags items of Inl e \<Rightarrow> False | Inr tags \<Rightarrow> True)
      | _ \<Rightarrow> True)"

definition example_fromISO :: "jsval \<Rightarrow> DateTime" where
  "example_fromISO x =
     (if x = JStr ''2024-05-01T00:00:00.000Z'' then Valid 1714521600000 else Invalid)"

definition replacements_note :: Note where
  "replacements_note =
     \<lparr>note_id = ''note-17'', user = None, subject = None, note_text = ''<p>stack a swapped</p>'',
      created_on = 1714500000000, category = None, note_category = Some ''Stack replacements'',
      author_id = Some ''u-1'', author_name = Some ''Kim'', editor_id = None, editor_name = None,
      updated_on = None, performed_on = Some 1714400000000, tag_numbers = None, version = None,
      software_type = None, external_note = Some False,
      stack_replacements = Some (serializeStackReplacements replacement_ab),
      workorder_id = Some ''WO-002527'', stack_inspections = None, stack_installs = None,
      stack_tensioning = None\<rparr>"

definition calibration_note :: Note where
  "calibration_note =
     \<lparr>note_id = ''note-18'', user = None, subject = None, note_text = ''<p>sensor checked</p>'',
      created_on = 1714500000000, category = None, note_category = Some ''Calibration'',
      author_id = Some ''u-1'', author_name = Some ''Kim'', editor_id = None, editor_name = None,
      updated_on = None, performed_on = Some 1714400000000, tag_numbers = Some [''PT-101''],
      version = None, software_type = None, external_note = Some False,
      stack_replacements = None, workorder_id = None, stack_inspections = None,
      stack_installs = None, stack_tensioning = None\<rparr>"

definition installs_note :: Note where
  "installs_note =
     \<lparr>note_id = ''note-19'', user = None, subject = None, note_text = ''<p>new stacks</p>'',
      created_on = 1714500000000, category = None, note_category = Some ''Stack installs'',
      author_id = Some ''u-1'', author_name = Some ''Kim'', editor_id = None, editor_name = None,
      updated_on = None, performed_on = Some 1714400000000, tag_numbers = None,
      version = None, software_type = None, external_note = Some False,
      stack_replacements = None, workorder_id = None, stack_inspections = None,
      stack_installs = Some (serializeStackInstalls install_ab), stack_tensioning = None\<rparr>"

definition calibration_form :: obj where
  "calibration_form =
     [(''performed_on'', JStr ''2024-05-01T00:00:00.000Z''),
      (''tag_numbers'', JArr [JObj [(''tag_number'', JStr ''PT-101'')], JStr ''TT-7'']),
      (''text'', JStr ''<p>recalibrated</p>''),
      (''external_note'', JBool False)]"

definition bad_date_form :: obj where
  "bad_date_form =
     [(''performed_on'', JStr ''yesterday''),
      (''tag_numbers'', JArr [JStr ''PT-101'']),
      (''text'', JStr ''<p>sensor checked</p>'')]"

text \<open>
  What the patches sent to the notes service in a trace hold for a key, one entry per call
  of \<^verbatim>\<open>add\<close> or \<^verbatim>\<open>edit\<close>; and a software update form that also holds a tag list.
\<close>

fun sent_field :: "string \<Rightarrow> effect list \<Rightarrow> jsval option list" where
  "sent_field k [] = []"
| "sent_field k (NotesAdd p # es) = p k # sent_field k es"
| "sent_field k (NotesEdit i p # es) = p k # sent_field k es"
| "sent_field k (e # es) = sent_field k es"

definition software_form :: obj where
  "software_form =
     [(''performed_on'', JStr ''2024-05-01T00:00:00.000Z''),
      (''software_type'', JStr ''PLC software''),
      (''version'', JStr ''v2.1.0''),
      (''tag_numbers'', JArr [JStr ''PT-9'']),
      (''text'', JStr ''<p>updated</p>'')]"

section \<open>Properties of the codec\<close>

lemma split_semis_not_Nil: "split_semis s \<noteq> []"
  by (induction s) (auto split: list.splits)

lemma split_semis_piece:
  "semi \<notin> set a \<Longrightarrow> split_semis (a @ semi # rest) = a # split_semis rest"
  by (induction a) auto

lemma split_semis_single: "semi \<notin> set a \<Longrightarrow> split_semis a = [a]"
  by (induction a) auto

lemma split_semis_join:
  "\<forall>x\<in>set xs. semi \<notin> set x \<Longrightarrow>
     split_semis (join_semis xs @ [semi]) = (if xs = [] then [[], []] else xs @ [[]])"
proof (induction xs rule: join_semis.induct)
  case 1
  then show ?case by simp
next
  case (2 x)
  then have "semi \<notin> set x" by simp
  then show ?case using split_semis_piece [of x "[]"] by simp
next
  case (3 x y ys)
  then have "semi \<notin> set x" and "\<forall>z\<in>set (y # ys). semi \<notin> set z" by simp_all
  then show ?case using split_semis_piece [of x "join_semis (y # ys) @ [semi]"] "3.IH" by simp
qed

lemma trim_eq_Nil: "trim s = [] \<longleftrightarrow> (\<forall>c\<in>set s. is_ws c)"
proof
  assume "trim s = []"
  then have "dropWhile is_ws (rev (dropWhile is_ws s)) = []" by (simp add: trim_def)
  then have "\<forall>c\<in>set (dropWhile is_ws s). is_ws c" by simp
  then have "dropWhile is_ws s = []" using hd_dropWhile [of is_ws s]
    by (cases "dropWhile is_ws s") auto
  then show "\<forall>c\<in>set s. is_ws c" by simp
next
  assume "\<forall>c\<in>set s. is_ws c"
  then have d: "dropWhile is_ws s = []" by simp
  show "trim s = []" unfolding trim_def d by simp
qed

lemma takeWhile_before_quote:
  "sq \<notin> set f \<Longrightarrow> takeWhile (\<lambda>c. c \<noteq> sq) (f @ sq # rest) = f"
  by (induction f) auto

lemma try_lens_first:
  "lo \<le> length f \<Longrightarrow> k rest = Some gs \<Longrightarrow> try_lens k (f @ rest) lo (length f) = Some (f # gs)"
  by (subst try_lens.simps) simp

lemma match_open:
  "match_here ts rest = Some gs \<Longrightarrow> match_here (Lit open_lit # ts) (open_lit @ rest) = Some gs"
  by simp

lemma match_group:
  assumes "sq \<notin> set f" and "lo \<le> length f" and "k (sq # rest) = Some gs"
  shows "try_lens k (f @ sq # rest) lo (length (takeWhile (\<lambda>c. c \<noteq> sq) (f @ sq # rest)))
           = Some (f # gs)"
  using assms try_lens_first [of lo f k "sq # rest" gs] by (simp add: takeWhile_before_quote)

lemma match_any_sep:
  assumes "sq \<notin> set f" and "match_here ts rest = Some gs"
  shows "match_here (Any0 # Lit sep_lit # ts) (f @ sep_lit @ rest) = Some (f # gs)"
proof -
  have "match_here (Lit sep_lit # ts) (sq # CHR 0x2C # sq # rest) = Some gs"
    using assms(2) by (simp add: sep_lit_def)
  then show ?thesis
    using match_group [OF assms(1), of 0 "match_here (Lit sep_lit # ts)" "CHR 0x2C # sq # rest" gs]
    by (simp add: sep_lit_def)
qed

lemma match_some_sep:
  assumes "sq \<notin> set f" and "f \<noteq> []" and "match_here ts rest = Some gs"
  shows "match_here (Some1 # Lit sep_lit # ts) (f @ sep_lit @ rest) = Some (f # gs)"
proof -
  have "match_here (Lit sep_lit # ts) (sq # CHR 0x2C # sq # rest) = Some gs"
    using assms(3) by (simp add: sep_lit_def)
  moreover have "1 \<le> length f" using assms(2) by (cases f) simp_all
  ultimately show ?thesis
    using match_group [OF assms(1), of 1 "match_here (Lit sep_lit # ts)" "CHR 0x2C # sq # rest" gs]
    by (simp add: sep_lit_def)
qed

lemma match_any_close:
  assumes "sq \<notin> set f"
  shows "match_here [Any0, Lit close_lit] (f @ close_lit) = Some [f]"
proof -
  have "match_here [Lit close_lit] (sq # [CHR 0x29]) = Some []"
    by (simp add: close_lit_def)
  then show ?thesis
    using match_group [OF assms(1), of 0 "match_here [Lit close_lit]" "[CHR 0x29]" "[]"]
    by (simp add: close_lit_def)
qed

lemma match_some_close:
  assumes "sq \<notin> set f" and "f \<noteq> []"
  shows "match_here [Some1, Lit close_lit] (f @ close_lit) = Some [f]"
proof -
  have "match_here [Lit close_lit] (sq # [CHR 0x29]) = Some []"
    by (simp add: close_lit_def)
  moreover have "1 \<le> length f" using assms(2) by (cases f) simp_all
  ultimately show ?thesis
    using match_group [OF assms(1), of 1 "match_here [Lit close_lit]" "[CHR 0x29]" "[]"]
    by (simp add: close_lit_def)
qed

lemma re_match_here: "match_here re s = Some gs \<Longrightarrow> re_match re s = Some gs"
  by (subst re_match.simps) simp

lemma bool_text_plain: "sq \<notin> set (bool_text b)" "semi \<notin> set (bool_text b)" "bool_text b \<noteq> []"
  by (simp_all add: bool_text_def sq_def semi_def)

lemma bool_text_true: "(bool_text b = ''true'') = b"
  by (simp add: bool_text_def)

lemma install_tuple_match:
  assumes "identifier i \<noteq> []" and "sq \<notin> set (identifier i)" and "sq \<notin> set (serial_number i)"
  shows "re_match install_re (install_tuple i) = Some [identifier i, serial_number i]"
  unfolding install_re_def install_tuple_def
  by (intro re_match_here match_open match_some_sep match_any_close assms)

lemma three_field_match:
  assumes "i \<noteq> []" and "sq \<notin> set i" and "sq \<notin> set s" and "sq \<notin> set t"
  shows "re_match three_field_re (legacy_tuple i s t) = Some [i, s, t]"
  unfolding three_field_re_def legacy_tuple_def
  by (intro re_match_here match_open match_some_sep match_any_sep match_any_close assms)

lemma inspection_tuple_match:
  assumes "identifier i \<noteq> []" and "sq \<notin> set (identifier i)" and "sq \<notin> set (serial_number i)"
    and "sq \<notin> set (insight i)"
  shows "re_match four_field_re (inspection_tuple i)
           = Some [identifier i, serial_number i, insight i, bool_text (completed i)]"
  unfolding four_field_re_def inspection_tuple_def
  by (intro re_match_here match_open match_some_sep match_any_sep match_some_close assms
        bool_text_plain)

lemma replacement_tuple_match:
  assumes "identifier i \<noteq> []" and "sq \<notin> set (identifier i)"
    and "sq \<notin> set (removed_serial_number i)" and "sq \<notin> set (added_serial_number i)"
    and "sq \<notin> set (stack_symptom i)"
  shows "re_match replacement_re (replacement_tuple i)
           = Some [identifier i, removed_serial_number i, added_serial_number i,
                   stack_symptom i, bool_text (stack_symptom_confirmed i)]"
  unfolding replacement_re_def replacement_tuple_def
  by (intro re_match_here match_open match_some_sep match_any_sep match_some_close assms
        bool_text_plain)

lemma install_segment_tuple:
  assumes "identifier i \<noteq> []" and "sq \<notin> set (identifier i)" and "sq \<notin> set (serial_number i)"
  shows "install_of_segment (install_tuple i) = Some i"
  by (simp add: install_of_segment_def install_tuple_match [OF assms])

lemma inspection_segment_tuple:
  assumes "identifier i \<noteq> []" and "sq \<notin> set (identifier i)" and "sq \<notin> set (serial_number i)"
    and "sq \<notin> set (insight i)"
  shows "inspection_of_segment (inspection_tuple i) = Some i"
    and "tensioning_of_segment (inspection_tuple i) = Some i"
  by (simp_all add: inspection_of_segment_def tensioning_of_segment_def
        inspection_tuple_match [OF assms] bool_text_true)

lemma replacement_segment_tuple:
  assumes "identifier i \<noteq> []" and "sq \<notin> set (identifier i)"
    and "sq \<notin> set (removed_serial_number i)" and "sq \<notin> set (added_serial_number i)"
    and "sq \<notin> set (stack_symptom i)"
  shows "replacement_of_segment (replacement_tuple i) = Some i"
  by (simp add: replacement_of_segment_def replacement_tuple_match [OF assms] bool_text_true)

lemma quotes_append: "quotes (a @ b) = quotes a + quotes b"
  by (simp add: quotes_def)

lemma quotes_drop: "quotes (drop n s) \<le> quotes s"
proof -
  have "quotes s = quotes (take n s) + quotes (drop n s)"
    using quotes_append [of "take n s" "drop n s"] by simp
  then show ?thesis by simp
qed

lemma quotes_free: "sq \<notin> set s \<Longrightarrow> quotes s = 0"
  by (induction s) (auto simp: quotes_def)

lemma try_lens_SomeD:
  "try_lens k s lo n = Some gs \<Longrightarrow> \<exists>m gs'. k (drop m s) = Some gs'"
proof (induction n)
  case 0
  then have "k (drop 0 s) \<noteq> None"
    by (subst (asm) try_lens.simps) (auto split: if_splits option.splits)
  then show ?case by blast
next
  case (Suc n)
  show ?case
  proof (cases "k (drop (Suc n) s)")
    case None
    with Suc.prems have "try_lens k s lo n = Some gs"
      by (subst (asm) try_lens.simps) (auto split: if_splits)
    then show ?thesis by (rule Suc.IH)
  next
    case (Some a)
    then show ?thesis by blast
  qed
qed

lemma match_here_quotes:
  "match_here ts s = Some gs \<Longrightarrow> lit_quotes ts \<le> quotes s"
proof (induction ts arbitrary: s gs)
  case Nil
  then show ?case by simp
next
  case (Cons t ts)
  show ?case
  proof (cases t)
    case (Lit l)
    with Cons.prems have l: "take (length l) s = l"
      and m: "match_here ts (drop (length l) s) = Some gs"
      by (auto split: if_splits)
    have "quotes (take (length l) s @ drop (length l) s) = quotes l + quotes (drop (length l) s)"
      unfolding quotes_append l ..
    then have "quotes s = quotes l + quotes (drop (length l) s)" by simp
    with Cons.IH [OF m] Lit show ?thesis by simp
  next
    case Some1
    with Cons.prems obtain m gs' where "match_here ts (drop m s) = Some gs'"
      by (auto dest: try_lens_SomeD)
    then have "lit_quotes ts \<le> quotes (drop m s)" by (rule Cons.IH)
    with quotes_drop [of m s] Some1 show ?thesis by simp
  next
    case Any0
    with Cons.prems obtain m gs' where "match_here ts (drop m s) = Some gs'"
      by (auto dest: try_lens_SomeD)
    then have "lit_quotes ts \<le> quotes (drop m s)" by (rule Cons.IH)
    with quotes_drop [of m s] Any0 show ?thesis by simp
  qed
qed

lemma re_match_quotes:
  "re_match ts s = Some gs \<Longrightarrow> lit_quotes ts \<le> quotes s"
proof (induction s)
  case Nil
  then show ?case
    by (subst (asm) re_match.simps) (auto split: option.splits dest: match_here_quotes)
next
  case (Cons c cs)
  from Cons.prems show ?case
  proof (subst (asm) re_match.simps, cases "match_here ts (c # cs)")
    case None
    assume "(case match_here ts (c # cs) of None \<Rightarrow> (case c # cs of [] \<Rightarrow> None | c # cs \<Rightarrow> re_match ts cs)
              | Some gs \<Rightarrow> Some gs) = Some gs"
    with None have "re_match ts cs = Some gs" by simp
    then have "lit_quotes ts \<le> quotes cs" by (rule Cons.IH)
    then show ?thesis by (simp add: quotes_def)
  next
    case (Some a)
    then show ?thesis using match_here_quotes [of ts "c # cs" a] by simp
  qed
qed

lemma legacy_tuple_quotes:
  "sq \<notin> set i \<Longrightarrow> sq \<notin> set s \<Longrightarrow> sq \<notin> set t \<Longrightarrow> quotes (legacy_tuple i s t) = 6"
  by (simp add: legacy_tuple_def quotes_append quotes_free)
    (simp add: quotes_def open_lit_def sep_lit_def close_lit_def sq_def)

lemma four_field_quotes: "lit_quotes four_field_re = 8"
  by (simp add: four_field_re_def) (simp add: quotes_def open_lit_def sep_lit_def close_lit_def sq_def)

lemma four_field_no_legacy:
  assumes "sq \<notin> set i" and "sq \<notin> set s" and "sq \<notin> set t"
  shows "re_match four_field_re (legacy_tuple i s t) = None"
proof (cases "re_match four_field_re (legacy_tuple i s t)")
  case None
  then show ?thesis .
next
  case (Some gs)
  then have "lit_quotes four_field_re \<le> quotes (legacy_tuple i s t)" by (rule re_match_quotes)
  then show ?thesis using legacy_tuple_quotes [OF assms] four_field_quotes by simp
qed

lemma trim_Nil: "trim [] = []"
  by (simp add: trim_def)

lemma trim_open: "trim (open_lit @ s) \<noteq> []"
  by (simp add: trim_eq_Nil open_lit_def is_ws_def)

lemma parse_tuples:
  assumes "\<forall>x\<in>set xs. semi \<notin> set (render x) \<and> trim (render x) \<noteq> [] \<and> seg (render x) = Some x"
  shows "non_null (map seg (filter (\<lambda>r. trim r \<noteq> [])
           (split_semis (join_semis (map render xs) @ [semi])))) = xs"
proof -
  have "non_null (map seg (filter (\<lambda>r. trim r \<noteq> []) (map render xs @ [[]]))) = xs"
    using assms by (induction xs) (simp_all add: trim_Nil)
  moreover have "split_semis (join_semis (map render xs) @ [semi])
                   = (if xs = [] then [[], []] else map render xs @ [[]])"
    using assms split_semis_join [of "map render xs"] by simp
  ultimately show ?thesis by (cases "xs = []") (simp_all add: trim_Nil)
qed

lemma stack_identifier_plain:
  "i \<in> set ALL_STACK_IDENTIFIERS \<Longrightarrow> i \<noteq> [] \<and> sq \<notin> set i \<and> semi \<notin> set i"
  by (auto simp: ALL_STACK_IDENTIFIERS_def sq_def semi_def)

lemma lits_semi_free: "semi \<notin> set open_lit" "semi \<notin> set sep_lit" "semi \<notin> set close_lit"
  by (simp_all add: open_lit_def sep_lit_def close_lit_def semi_def sq_def)

lemma replacement_tuple_ok:
  assumes "well_formed_replacement x" and "semicolon_free_replacement x"
  shows "semi \<notin> set (replacement_tuple x) \<and> trim (replacement_tuple x) \<noteq> []
          \<and> replacement_of_segment (replacement_tuple x) = Some x"
proof -
  from assms(1) have i: "identifier x \<noteq> [] \<and> sq \<notin> set (identifier x) \<and> semi \<notin> set (identifier x)"
    by (simp add: well_formed_replacement_def stack_identifier_plain)
  have "semi \<notin> set (replacement_tuple x)"
    using i assms(2) by (simp add: replacement_tuple_def semicolon_free_replacement_def semi_free_def
        lits_semi_free bool_text_plain)
  moreover have "trim (replacement_tuple x) \<noteq> []"
    unfolding replacement_tuple_def by (rule trim_open)
  moreover have "replacement_of_segment (replacement_tuple x) = Some x"
    using i assms(1) by (intro replacement_segment_tuple)
      (simp_all add: well_formed_replacement_def quote_free_def)
  ultimately show ?thesis by simp
qed

lemma replacements_roundtrip:
  assumes "list_all well_formed_replacement rs" and "list_all semicolon_free_replacement rs"
  shows "parseStackReplacements (Some (serializeStackReplacements rs)) = rs"
proof -
  have "\<forall>x\<in>set rs. semi \<notin> set (replacement_tuple x) \<and> trim (replacement_tuple x) \<noteq> []
          \<and> replacement_of_segment (replacement_tuple x) = Some x"
    using assms replacement_tuple_ok by (simp add: list_all_iff)
  then show ?thesis
    using parse_tuples [of rs replacement_tuple replacement_of_segment]
    by (simp add: parseStackReplacements_def serializeStackReplacements_def)
qed

lemma inspection_tuple_ok:
  assumes "well_formed_inspection x" and "semicolon_free_inspection x"
  shows "semi \<notin> set (inspection_tuple x) \<and> trim (inspection_tuple x) \<noteq> []
          \<and> inspection_of_segment (inspection_tuple x) = Some x
          \<and> tensioning_of_segment (inspection_tuple x) = Some x"
proof -
  from assms(1) have i: "identifier x \<noteq> [] \<and> sq \<notin> set (identifier x) \<and> semi \<notin> set (identifier x)"
    by (simp add: well_formed_inspection_def stack_identifier_plain)
  have "semi \<notin> set (inspection_tuple x)"
    using i assms(2) by (simp add: inspection_tuple_def semicolon_free_inspection_def semi_free_def
        lits_semi_free bool_text_plain)
  moreover have "trim (inspection_tuple x) \<noteq> []"
    unfolding inspection_tuple_def by (rule trim_open)
  moreover have "inspection_of_segment (inspection_tuple x) = Some x"
    using i assms(1) by (intro inspection_segment_tuple)
      (simp_all add: well_formed_inspection_def quote_free_def)
  moreover have "tensioning_of_segment (inspection_tuple x) = Some x"
    using i assms(1) by (intro inspection_segment_tuple)
      (simp_all add: well_formed_inspection_def quote_free_def)
  ultimately show ?thesis by simp
qed

lemma inspections_roundtrip:
  assumes "list_all well_formed_inspection rs" and "list_all semicolon_free_inspection rs"
  shows "parseStackInspections (Some (serializeStackInspections rs)) = rs"
proof -
  have "\<forall>x\<in>set rs. semi \<notin> set (inspection_tuple x) \<and> trim (inspection_tuple x) \<noteq> []
          \<and> inspection_of_segment (inspection_tuple x) = Some x"
    using assms inspection_tuple_ok by (simp add: list_all_iff)
  then show ?thesis
    using parse_tuples [of rs inspection_tuple inspection_of_segment]
    by (simp add: parseStackInspections_def serializeStackInspections_def)
qed

lemma tensioning_roundtrip:
  assumes "list_all well_formed_inspection rs" and "list_all semicolon_free_inspection rs"
  shows "parseStackTensioning (Some (serializeStackTensioning rs)) = rs"
proof -
  have "\<forall>x\<in>set rs. semi \<notin> set (inspection_tuple x) \<and> trim (inspection_tuple x) \<noteq> []
          \<and> tensioning_of_segment (inspection_tuple x) = Some x"
    using assms inspection_tuple_ok by (simp add: list_all_iff)
  then show ?thesis
    using parse_tuples [of rs inspection_tuple tensioning_of_segment]
    by (simp add: parseStackTensioning_def serializeStackTensioning_def)
qed

lemma install_tuple_ok:
  assumes "well_formed_install x" and "semicolon_free_install x"
  shows "semi \<notin> set (install_tuple x) \<and> trim (install_tuple x) \<noteq> []
          \<and> install_of_segment (install_tuple x) = Some x"
proof -
  from assms(1) have i: "identifier x \<noteq> [] \<and> sq \<notin> set (identifier x) \<and> semi \<notin> set (identifier x)"
    by (simp add: well_formed_install_def stack_identifier_plain)
  have "semi \<notin> set (install_tuple x)"
    using i assms(2) by (simp add: install_tuple_def semicolon_free_install_def semi_free_def
        lits_semi_free)
  moreover have "trim (install_tuple x) \<noteq> []"
    unfolding install_tuple_def by (rule trim_open)
  moreover have "install_of_segment (install_tuple x) = Some x"
    using i assms(1) by (intro install_segment_tuple)
      (simp_all add: well_formed_install_def quote_free_def)
  ultimately show ?thesis by simp
qed

lemma installs_roundtrip:
  assumes "list_all well_formed_install rs" and "list_all semicolon_free_install rs"
  shows "parseStackInstalls (Some (serializeStackInstalls rs)) = rs"
proof -
  have "\<forall>x\<in>set rs. semi \<notin> set (install_tuple x) \<and> trim (install_tuple x) \<noteq> []
          \<and> install_of_segment (install_tuple x) = Some x"
    using assms install_tuple_ok by (simp add: list_all_iff)
  then show ?thesis
    using parse_tuples [of rs install_tuple install_of_segment]
    by (simp add: parseStackInstalls_def serializeStackInstalls_def)
qed

text \<open>
  Claim C1, as the code has it. For each of the four shapes, a list of sub-records whose
  identifiers are distinct letters of \<open>a\<close> to \<open>e\<close> and whose text fields contain neither a
  single quote nor a semicolon is decoded, from the string its serializer writes, to the
  same list in the same order. The micro-format escapes nothing: the parser splits at every
  semicolon before it looks for tuples, so the semicolon is excluded next to the quote.
\<close>

theorem decode_encode_roundtrip:
  "(list_all well_formed_replacement rs \<and> list_all semicolon_free_replacement rs
      \<and> distinct (map identifier rs)
      \<longrightarrow> parseStackReplacements (Some (serializeStackReplacements rs)) = rs)
   \<and> (list_all well_formed_inspection ins \<and> list_all semicolon_free_inspection ins
      \<and> distinct (map identifier ins)
      \<longrightarrow> parseStackInspections (Some (serializeStackInspections ins)) = ins)
   \<and> (list_all well_formed_inspection tns \<and> list_all semicolon_free_inspection tns
      \<and> distinct (map identifier tns)
      \<longrightarrow> parseStackTensioning (Some (serializeStackTensioning tns)) = tns)
   \<and> (list_all well_formed_install ils \<and> list_all semicolon_free_install ils
      \<and> distinct (map identifier ils)
      \<longrightarrow> parseStackInstalls (Some (serializeStackInstalls ils)) = ils)"
  using replacements_roundtrip inspections_roundtrip tensioning_roundtrip installs_roundtrip
  by blast

text \<open>
  The round trip at lists of two sub-records of each shape.
\<close>

theorem decode_encode_roundtrip_witness:
  "(list_all well_formed_replacement replacement_ab
      \<and> list_all semicolon_free_replacement replacement_ab
      \<and> distinct (map identifier replacement_ab)
      \<and> parseStackReplacements (Some (serializeStackReplacements replacement_ab)) = replacement_ab)
   \<and> (list_all well_formed_inspection inspection_ab
      \<and> list_all semicolon_free_inspection inspection_ab
      \<and> distinct (map identifier inspection_ab)
      \<and> parseStackInspections (Some (serializeStackInspections inspection_ab)) = inspection_ab
      \<and> parseStackTensioning (Some (serializeStackTensioning inspection_ab)) = inspection_ab)
   \<and> (list_all well_formed_install install_ab \<and> list_all semicolon_free_install install_ab
      \<and> distinct (map identifier install_ab)
      \<and> parseStackInstalls (Some (serializeStackInstalls install_ab)) = install_ab)"
proof -
  have r: "list_all well_formed_replacement replacement_ab
      \<and> list_all semicolon_free_replacement replacement_ab
      \<and> distinct (map identifier replacement_ab)"
    by (simp add: replacement_ab_def well_formed_replacement_def semicolon_free_replacement_def
        quote_free_def semi_free_def ALL_STACK_IDENTIFIERS_def sq_def semi_def)
  have i: "list_all well_formed_inspection inspection_ab
      \<and> list_all semicolon_free_inspection inspection_ab
      \<and> distinct (map identifier inspection_ab)"
    by (simp add: inspection_ab_def well_formed_inspection_def semicolon_free_inspection_def
        quote_free_def semi_free_def ALL_STACK_IDENTIFIERS_def sq_def semi_def)
  have n: "list_all well_formed_install install_ab \<and> list_all semicolon_free_install install_ab
      \<and> distinct (map identifier install_ab)"
    by (simp add: install_ab_def well_formed_install_def semicolon_free_install_def
        quote_free_def semi_free_def ALL_STACK_IDENTIFIERS_def sq_def semi_def)
  show ?thesis
    using r i n
      decode_encode_roundtrip [of replacement_ab inspection_ab inspection_ab install_ab]
    by blast
qed

text \<open>
  Claim C1 as stated (only the single quote excluded) fails: one inspection of stack
  \<open>a\<close> whose insight is \<open>worn; replace soon\<close> has no quote in any field, and the string
  written for it decodes to the empty list.
\<close>

theorem roundtrip_semicolon_counterexample:
  "list_all well_formed_inspection inspection_semicolon
   \<and> distinct (map identifier inspection_semicolon)
   \<and> parseStackInspections (Some (serializeStackInspections inspection_semicolon)) = []
   \<and> parseStackInspections (Some (serializeStackInspections inspection_semicolon))
        \<noteq> inspection_semicolon"
  by code_simp

lemma legacy_tuple_plain:
  assumes "semi \<notin> set i" and "semi \<notin> set s" and "semi \<notin> set t"
  shows "semi \<notin> set (legacy_tuple i s t)" and "trim (legacy_tuple i s t) \<noteq> []"
  using assms trim_open [of "i @ sep_lit @ s @ sep_lit @ t @ close_lit"]
  by (simp_all add: legacy_tuple_def lits_semi_free)

lemma inspection_segment_legacy:
  assumes "i \<noteq> []" and "sq \<notin> set i" and "sq \<notin> set s" and "sq \<notin> set t"
  shows "inspection_of_segment (legacy_tuple i s t)
           = Some \<lparr>identifier = i, serial_number = s, insight = t, completed = False\<rparr>"
  using four_field_no_legacy [OF assms(2-4)] three_field_match [OF assms]
  by (simp add: inspection_of_segment_def)

lemma tensioning_segment_legacy:
  assumes "sq \<notin> set i" and "sq \<notin> set s" and "sq \<notin> set t"
  shows "tensioning_of_segment (legacy_tuple i s t) = None"
  using four_field_no_legacy [OF assms] by (simp add: tensioning_of_segment_def)

lemma parse_one_segment:
  assumes "semi \<notin> set r" and "trim r \<noteq> []"
  shows "non_null (map seg (filter (\<lambda>r. trim r \<noteq> []) (split_semis r))) = non_null [seg r]"
    and "non_null (map seg (filter (\<lambda>r. trim r \<noteq> []) (split_semis (r @ [semi]))))
           = non_null [seg r]"
  using assms split_semis_single [of r] split_semis_piece [of r "[]"] by (simp_all add: trim_Nil)

text \<open>
  Claim C2, as the code has it. \<open>parseStackInspections\<close> tries the four-field pattern and
  then the three-field pattern: a three-field tuple (with or without the closing semicolon
  of a list) decodes to one inspection with that identifier, serial number and insight and
  \<open>completed = False\<close>. \<open>parseStackTensioning\<close> has the four-field pattern only: the same
  tuple matches nothing and decodes to the empty list.
\<close>

theorem legacy_three_field_decoding:
  assumes "i \<noteq> []" and "quote_free i" and "quote_free s" and "quote_free t"
    and "semi_free i" and "semi_free s" and "semi_free t"
  shows "parseStackInspections (Some (legacy_tuple i s t))
           = [\<lparr>identifier = i, serial_number = s, insight = t, completed = False\<rparr>]
       \<and> parseStackInspections (Some (legacy_tuple i s t @ [semi]))
           = [\<lparr>identifier = i, serial_number = s, insight = t, completed = False\<rparr>]
       \<and> parseStackTensioning (Some (legacy_tuple i s t)) = []
       \<and> parseStackTensioning (Some (legacy_tuple i s t @ [semi])) = []"
proof -
  have q: "sq \<notin> set i" "sq \<notin> set s" "sq \<notin> set t"
    using assms by (simp_all add: quote_free_def)
  have p: "semi \<notin> set (legacy_tuple i s t)" "trim (legacy_tuple i s t) \<noteq> []"
    using assms legacy_tuple_plain by (simp_all add: semi_free_def)
  have n: "legacy_tuple i s t \<noteq> []" by (simp add: legacy_tuple_def open_lit_def)
  have a: "inspection_of_segment (legacy_tuple i s t)
             = Some \<lparr>identifier = i, serial_number = s, insight = t, completed = False\<rparr>"
    using assms(1) q by (rule inspection_segment_legacy)
  have b: "tensioning_of_segment (legacy_tuple i s t) = None"
    using q by (rule tensioning_segment_legacy)
  show ?thesis
    using n a b parse_one_segment [OF p, of inspection_of_segment]
      parse_one_segment [OF p, of tensioning_of_segment]
    by (simp add: parseStackInspections_def parseStackTensioning_def)
qed

text \<open>
  The legacy tuple \<open>('a','SN-100','no damage')\<close> under both parsers.
\<close>

theorem legacy_three_field_decoding_witness:
  "''a'' \<noteq> [] \<and> quote_free ''a'' \<and> quote_free ''SN-100'' \<and> quote_free ''no damage''
   \<and> semi_free ''a'' \<and> semi_free ''SN-100'' \<and> semi_free ''no damage''
   \<and> parseStackInspections (Some (legacy_tuple ''a'' ''SN-100'' ''no damage''))
       = [\<lparr>identifier = ''a'', serial_number = ''SN-100'', insight = ''no damage'',
            completed = False\<rparr>]
   \<and> parseStackTensioning (Some (legacy_tuple ''a'' ''SN-100'' ''no damage'')) = []"
proof -
  have h: "''a'' \<noteq> []" "quote_free ''a''" "quote_free ''SN-100''" "quote_free ''no damage''"
    "semi_free ''a''" "semi_free ''SN-100''" "semi_free ''no damage''"
    by (simp_all add: quote_free_def semi_free_def sq_def semi_def)
  show ?thesis using h legacy_three_field_decoding [OF h] by simp
qed

text \<open>
  Claim C2 as stated fails for the Tensioning shape: the legacy tuple
  \<open>('a','SN-100','no damage')\<close> decodes to no sub-record at all.
\<close>

theorem tensioning_legacy_counterexample:
  "parseStackTensioning (Some (legacy_tuple ''a'' ''SN-100'' ''no damage'')) = []
   \<and> parseStackTensioning (Some (legacy_tuple ''a'' ''SN-100'' ''no damage''))
       \<noteq> [\<lparr>identifier = ''a'', serial_number = ''SN-100'', insight = ''no damage'',
             completed = False\<rparr>]
   \<and> parseStackTensioning (Some (legacy_tuple ''a'' ''SN-100'' ''no damage'' @ [semi])) = []"
  by code_simp

lemma re_match_open:
  "re_match (Lit open_lit # ts) s = Some gs \<Longrightarrow> CHR 0x28 \<in> set s"
proof (induction s)
  case Nil
  then show ?case
    by (subst (asm) re_match.simps) (simp add: open_lit_def)
next
  case (Cons c cs)
  show ?case
  proof (cases "match_here (Lit open_lit # ts) (c # cs)")
    case None
    with Cons.prems have "re_match (Lit open_lit # ts) cs = Some gs"
      by (subst (asm) re_match.simps) simp
    then show ?thesis using Cons.IH by simp
  next
    case (Some a)
    then show ?thesis by (auto simp: open_lit_def split: if_splits)
  qed
qed

lemma open_paren_not_blank: "CHR 0x28 \<in> set s \<Longrightarrow> trim s \<noteq> []"
  by (auto simp: trim_eq_Nil is_ws_def)

lemma segment_not_blank:
  "replacement_of_segment s = Some r1 \<Longrightarrow> trim s \<noteq> []"
  "inspection_of_segment s = Some r2 \<Longrightarrow> trim s \<noteq> []"
  "tensioning_of_segment s = Some r3 \<Longrightarrow> trim s \<noteq> []"
  "install_of_segment s = Some r4 \<Longrightarrow> trim s \<noteq> []"
proof -
  show "replacement_of_segment s = Some r1 \<Longrightarrow> trim s \<noteq> []"
    by (rule open_paren_not_blank, cases "re_match replacement_re s")
      (auto simp: replacement_of_segment_def replacement_re_def dest: re_match_open)
  show "inspection_of_segment s = Some r2 \<Longrightarrow> trim s \<noteq> []"
    by (rule open_paren_not_blank, cases "re_match four_field_re s";
        cases "re_match three_field_re s")
      (auto simp: inspection_of_segment_def four_field_re_def three_field_re_def
        split: list.splits dest: re_match_open)
  show "tensioning_of_segment s = Some r3 \<Longrightarrow> trim s \<noteq> []"
    by (rule open_paren_not_blank, cases "re_match four_field_re s")
      (auto simp: tensioning_of_segment_def four_field_re_def dest: re_match_open)
  show "install_of_segment s = Some r4 \<Longrightarrow> trim s \<noteq> []"
    by (rule open_paren_not_blank, cases "re_match install_re s")
      (auto simp: install_of_segment_def install_re_def dest: re_match_open)
qed

lemma parse_two_segments:
  assumes "seg good = Some r" and "seg bad = None" and "trim good \<noteq> []"
    and "semi \<notin> set good" and "semi \<notin> set bad"
  shows "non_null (map seg (filter (\<lambda>r. trim r \<noteq> []) (split_semis (good @ [semi] @ bad)))) = [r]"
    and "non_null (map seg (filter (\<lambda>r. trim r \<noteq> []) (split_semis (bad @ [semi] @ good)))) = [r]"
  using assms split_semis_piece [of good bad] split_semis_piece [of bad good]
    split_semis_single [of good] split_semis_single [of bad]
  by simp_all

text \<open>
  Claim C7. For each shape, take a segment \<open>g\<close> the shape's parser accepts (giving the
  sub-record \<open>r\<close>) and a segment \<open>b\<close> it rejects (no pattern of the shape matches it),
  neither containing a semicolon. The list string of the two joined by a semicolon, in
  either order, decodes to exactly \<open>[r]\<close>: the rejected segment is dropped, the other one
  is still parsed, and the result is a list (the parsers have no error result).
\<close>

theorem malformed_segment_dropped:
  "(replacement_of_segment g1 = Some r1 \<and> replacement_of_segment b1 = None
      \<and> semi_free g1 \<and> semi_free b1
      \<longrightarrow> parseStackReplacements (Some (g1 @ [semi] @ b1)) = [r1]
          \<and> parseStackReplacements (Some (b1 @ [semi] @ g1)) = [r1])
   \<and> (inspection_of_segment g2 = Some r2 \<and> inspection_of_segment b2 = None
      \<and> semi_free g2 \<and> semi_free b2
      \<longrightarrow> parseStackInspections (Some (g2 @ [semi] @ b2)) = [r2]
          \<and> parseStackInspections (Some (b2 @ [semi] @ g2)) = [r2])
   \<and> (tensioning_of_segment g3 = Some r3 \<and> tensioning_of_segment b3 = None
      \<and> semi_free g3 \<and> semi_free b3
      \<longrightarrow> parseStackTensioning (Some (g3 @ [semi] @ b3)) = [r3]
          \<and> parseStackTensioning (Some (b3 @ [semi] @ g3)) = [r3])
   \<and> (install_of_segment g4 = Some r4 \<and> install_of_segment b4 = None
      \<and> semi_free g4 \<and> semi_free b4
      \<longrightarrow> parseStackInstalls (Some (g4 @ [semi] @ b4)) = [r4]
          \<and> parseStackInstalls (Some (b4 @ [semi] @ g4)) = [r4])"
proof (intro conjI impI; (elim conjE)?)
  assume "replacement_of_segment g1 = Some r1" "replacement_of_segment b1 = None"
    "semi_free g1" "semi_free b1"
  then show "parseStackReplacements (Some (g1 @ [semi] @ b1)) = [r1]"
    and "parseStackReplacements (Some (b1 @ [semi] @ g1)) = [r1]"
    using parse_two_segments [of replacement_of_segment g1 r1 b1] segment_not_blank(1) [of g1 r1]
    by (simp_all add: parseStackReplacements_def semi_free_def)
next
  assume "inspection_of_segment g2 = Some r2" "inspection_of_segment b2 = None"
    "semi_free g2" "semi_free b2"
  then show "parseStackInspections (Some (g2 @ [semi] @ b2)) = [r2]"
    and "parseStackInspections (Some (b2 @ [semi] @ g2)) = [r2]"
    using parse_two_segments [of inspection_of_segment g2 r2 b2] segment_not_blank(2) [of g2 r2]
    by (simp_all add: parseStackInspections_def semi_free_def)
next
  assume "tensioning_of_segment g3 = Some r3" "tensioning_of_segment b3 = None"
    "semi_free g3" "semi_free b3"
  then show "parseStackTensioning (Some (g3 @ [semi] @ b3)) = [r3]"
    and "parseStackTensioning (Some (b3 @ [semi] @ g3)) = [r3]"
    using parse_two_segments [of tensioning_of_segment g3 r3 b3] segment_not_blank(3) [of g3 r3]
    by (simp_all add: parseStackTensioning_def semi_free_def)
next
  assume "install_of_segment g4 = Some r4" "install_of_segment b4 = None"
    "semi_free g4" "semi_free b4"
  then show "parseStackInstalls (Some (g4 @ [semi] @ b4)) = [r4]"
    and "parseStackInstalls (Some (b4 @ [semi] @ g4)) = [r4]"
    using parse_two_segments [of install_of_segment g4 r4 b4] segment_not_blank(4) [of g4 r4]
    by (simp_all add: parseStackInstalls_def semi_free_def)
qed

theorem malformed_segment_dropped_witness:
  "(replacement_of_segment (replacement_tuple (hd replacement_ab)) = Some (hd replacement_ab)
      \<and> replacement_of_segment ''garbage'' = None
      \<and> semi_free (replacement_tuple (hd replacement_ab)) \<and> semi_free ''garbage''
      \<and> parseStackReplacements (Some (replacement_tuple (hd replacement_ab) @ [semi] @ ''garbage''))
          = [hd replacement_ab])
   \<and> (inspection_of_segment (inspection_tuple (hd inspection_ab)) = Some (hd inspection_ab)
      \<and> inspection_of_segment ''garbage'' = None
      \<and> semi_free (inspection_tuple (hd inspection_ab)) \<and> semi_free ''garbage''
      \<and> parseStackInspections (Some (''garbage'' @ [semi] @ inspection_tuple (hd inspection_ab)))
          = [hd inspection_ab])
   \<and> (tensioning_of_segment (inspection_tuple (hd inspection_ab)) = Some (hd inspection_ab)
      \<and> tensioning_of_segment ''garbage'' = None
      \<and> parseStackTensioning (Some (inspection_tuple (hd inspection_ab) @ [semi] @ ''garbage''))
          = [hd inspection_ab])
   \<and> (install_of_segment (install_tuple (hd install_ab)) = Some (hd install_ab)
      \<and> install_of_segment ''garbage'' = None
      \<and> semi_free (install_tuple (hd install_ab))
      \<and> parseStackInstalls (Some (''garbage'' @ [semi] @ install_tuple (hd install_ab)))
          = [hd install_ab])"
proof -
  have g: "semi_free ''garbage''" by (simp add: semi_free_def semi_def)
  have r: "replacement_of_segment (replacement_tuple (hd replacement_ab)) = Some (hd replacement_ab)"
    "replacement_of_segment ''garbage'' = None"
    "semi_free (replacement_tuple (hd replacement_ab))"
    by code_simp+
  have i: "inspection_of_segment (inspection_tuple (hd inspection_ab)) = Some (hd inspection_ab)"
    "inspection_of_segment ''garbage'' = None"
    "semi_free (inspection_tuple (hd inspection_ab))"
    by code_simp+
  have t: "tensioning_of_segment (inspection_tuple (hd inspection_ab)) = Some (hd inspection_ab)"
    "tensioning_of_segment ''garbage'' = None"
    by code_simp+
  have n: "install_of_segment (install_tuple (hd install_ab)) = Some (hd install_ab)"
    "install_of_segment ''garbage'' = None"
    "semi_free (install_tuple (hd install_ab))"
    by code_simp+
  show ?thesis
    using g r i t n
      malformed_segment_dropped [of "replacement_tuple (hd replacement_ab)" "hd replacement_ab"
        "''garbage''" "inspection_tuple (hd inspection_ab)" "hd inspection_ab" "''garbage''"
        "inspection_tuple (hd inspection_ab)" "hd inspection_ab" "''garbage''"
        "install_tuple (hd install_ab)" "hd install_ab" "''garbage''"]
    by blast
qed

subsection \<open>The groups of a match\<close>

text \<open>
  A match of a pattern has one text per capturing group. So the segment parsers, which
  name the groups of a match one by one, return a sub-record exactly when the source's
  \<^verbatim>\<open>if (match)\<close> succeeds, built from \<^verbatim>\<open>match[1]\<close>, \<^verbatim>\<open>match[2]\<close> and so on (here
  \<open>m ! 0\<close>, \<open>m ! 1\<close>, as the list holds the groups only).
\<close>

lemma try_lens_SomeE:
  "try_lens k s lo n = Some gs \<Longrightarrow> \<exists>m gs'. k (drop m s) = Some gs' \<and> gs = take m s # gs'"
proof (induction n)
  case 0
  then have "\<exists>gs'. k (drop 0 s) = Some gs' \<and> gs = take 0 s # gs'"
    by (subst (asm) try_lens.simps) (auto split: if_splits option.splits)
  then show ?case by blast
next
  case (Suc n)
  show ?case
  proof (cases "k (drop (Suc n) s)")
    case None
    with Suc.prems have "try_lens k s lo n = Some gs"
      by (subst (asm) try_lens.simps) (auto split: if_splits)
    then show ?thesis by (rule Suc.IH)
  next
    case (Some a)
    with Suc.prems have "gs = take (Suc n) s # a"
      by (subst (asm) try_lens.simps) (auto split: if_splits)
    with Some show ?thesis by blast
  qed
qed

lemma match_here_groups:
  "match_here ts s = Some gs \<Longrightarrow> length gs = groups ts"
proof (induction ts arbitrary: s gs)
  case Nil
  then show ?case by simp
next
  case (Cons t ts)
  show ?case
  proof (cases t)
    case (Lit l)
    with Cons.prems have "match_here ts (drop (length l) s) = Some gs"
      by (auto split: if_splits)
    with Cons.IH Lit show ?thesis by simp
  next
    case Some1
    with Cons.prems obtain m gs' where "match_here ts (drop m s) = Some gs'" "gs = take m s # gs'"
      by (auto dest: try_lens_SomeE)
    with Cons.IH Some1 show ?thesis by simp
  next
    case Any0
    with Cons.prems obtain m gs' where "match_here ts (drop m s) = Some gs'" "gs = take m s # gs'"
      by (auto dest: try_lens_SomeE)
    with Cons.IH Any0 show ?thesis by simp
  qed
qed

lemma re_match_groups:
  "re_match ts s = Some gs \<Longrightarrow> length gs = groups ts"
proof (induction s)
  case Nil
  then show ?case
    by (subst (asm) re_match.simps) (auto split: option.splits dest: match_here_groups)
next
  case (Cons c cs)
  show ?case
  proof (cases "match_here ts (c # cs)")
    case None
    with Cons.prems have "re_match ts cs = Some gs"
      by (subst (asm) re_match.simps) simp
    then show ?thesis by (rule Cons.IH)
  next
    case (Some a)
    with Cons.prems have "a = gs" by (subst (asm) re_match.simps) simp
    with Some show ?thesis using match_here_groups by blast
  qed
qed

lemma pattern_groups:
  "groups replacement_re = 5" "groups four_field_re = 4" "groups three_field_re = 3"
  "groups install_re = 2"
  by (simp_all add: replacement_re_def four_field_re_def three_field_re_def install_re_def)

lemma length_2: "length gs = 2 \<Longrightarrow> \<exists>a b. gs = [a, b]"
  by (auto simp: length_Suc_conv eval_nat_numeral)

lemma length_3: "length gs = 3 \<Longrightarrow> \<exists>a b c. gs = [a, b, c]"
  by (auto simp: length_Suc_conv eval_nat_numeral)

lemma length_4: "length gs = 4 \<Longrightarrow> \<exists>a b c d. gs = [a, b, c, d]"
  by (auto simp: length_Suc_conv eval_nat_numeral)

lemma length_5: "length gs = 5 \<Longrightarrow> \<exists>a b c d e. gs = [a, b, c, d, e]"
  by (auto simp: length_Suc_conv eval_nat_numeral)

lemma segment_parsers_follow_match:
  "replacement_of_segment r
     = (case re_match replacement_re r of
          None \<Rightarrow> None
        | Some m \<Rightarrow> Some \<lparr>identifier = m ! 0, removed_serial_number = m ! 1,
                          added_serial_number = m ! 2, stack_symptom = m ! 3,
                          stack_symptom_confirmed = (m ! 4 = ''true'')\<rparr>)"
  "inspection_of_segment r
     = (case re_match four_field_re r of
          Some m \<Rightarrow> Some \<lparr>identifier = m ! 0, serial_number = m ! 1, insight = m ! 2,
                          completed = (m ! 3 = ''true'')\<rparr>
        | None \<Rightarrow>
           (case re_match three_field_re r of
              Some m \<Rightarrow> Some \<lparr>identifier = m ! 0, serial_number = m ! 1, insight = m ! 2,
                              completed = False\<rparr>
            | None \<Rightarrow> None))"
  "tensioning_of_segment r
     = (case re_match four_field_re r of
          None \<Rightarrow> None
        | Some m \<Rightarrow> Some \<lparr>identifier = m ! 0, serial_number = m ! 1, insight = m ! 2,
                          completed = (m ! 3 = ''true'')\<rparr>)"
  "install_of_segment r
     = (case re_match install_re r of
          None \<Rightarrow> None
        | Some m \<Rightarrow> Some \<lparr>identifier = m ! 0, serial_number = m ! 1\<rparr>)"
proof -
  show "replacement_of_segment r
     = (case re_match replacement_re r of
          None \<Rightarrow> None
        | Some m \<Rightarrow> Some \<lparr>identifier = m ! 0, removed_serial_number = m ! 1,
                          added_serial_number = m ! 2, stack_symptom = m ! 3,
                          stack_symptom_confirmed = (m ! 4 = ''true'')\<rparr>)"
    using re_match_groups [of replacement_re r] length_5
    by (fastforce simp: replacement_of_segment_def pattern_groups split: option.splits)
  show "inspection_of_segment r
     = (case re_match four_field_re r of
          Some m \<Rightarrow> Some \<lparr>identifier = m ! 0, serial_number = m ! 1, insight = m ! 2,
                          completed = (m ! 3 = ''true'')\<rparr>
        | None \<Rightarrow>
           (case re_match three_field_re r of
              Some m \<Rightarrow> Some \<lparr>identifier = m ! 0, serial_number = m ! 1, insight = m ! 2,
                              completed = False\<rparr>
            | None \<Rightarrow> None))"
    using re_match_groups [of four_field_re r] re_match_groups [of three_field_re r]
      length_4 length_3
    by (fastforce simp: inspection_of_segment_def pattern_groups split: option.splits)
  show "tensioning_of_segment r
     = (case re_match four_field_re r of
          None \<Rightarrow> None
        | Some m \<Rightarrow> Some \<lparr>identifier = m ! 0, serial_number = m ! 1, insight = m ! 2,
                          completed = (m ! 3 = ''true'')\<rparr>)"
    using re_match_groups [of four_field_re r] length_4
    by (fastforce simp: tensioning_of_segment_def pattern_groups split: option.splits)
  show "install_of_segment r
     = (case re_match install_re r of
          None \<Rightarrow> None
        | Some m \<Rightarrow> Some \<lparr>identifier = m ! 0, serial_number = m ! 1\<rparr>)"
    using re_match_groups [of install_re r] length_2
    by (fastforce simp: install_of_segment_def pattern_groups split: option.splits)
qed

section \<open>Properties of the extraction and of the registry\<close>

lemma truthy_js_or_empty: "truthy (js_or x (JStr [])) = truthy x"
  by (simp add: js_or_def)

lemma replacements_loop_entries:
  "replacements_loop form ids items = items @ concat (map (replacement_entry form) ids)"
  by (induction ids arbitrary: items)
    (simp_all add: replacement_entry_def group_of_def filled_def text_field_def flag_field_def
      Let_def truthy_js_or_empty)

lemma inspections_loop_entries:
  "inspections_loop form ids items
     = items @ concat (map (inspection_entry ''stack_group_inspection_'' form) ids)"
  by (induction ids arbitrary: items)
    (simp_all add: inspection_entry_def group_of_def filled_def text_field_def flag_field_def
      Let_def truthy_js_or_empty)

lemma tensioning_loop_entries:
  "tensioning_loop form ids items
     = items @ concat (map (inspection_entry ''stack_group_tensioning_'' form) ids)"
  by (induction ids arbitrary: items)
    (simp_all add: inspection_entry_def group_of_def filled_def text_field_def flag_field_def
      Let_def truthy_js_or_empty)

lemma installs_loop_entries:
  "installs_loop form ids items = items @ concat (map (install_entry form) ids)"
  by (induction ids arbitrary: items)
    (simp_all add: install_entry_def group_of_def filled_def text_field_def
      Let_def truthy_js_or_empty)

lemma filter_concat_entries:
  assumes "distinct ids" and "\<And>i r. r \<in> set (e i) \<Longrightarrow> key r = i"
  shows "filter (\<lambda>r. key r = sid) (concat (map e ids)) = (if sid \<in> set ids then e sid else [])"
  using assms(1)
proof (induction ids)
  case Nil
  then show ?case by simp
next
  case (Cons i ids)
  have same: "filter (\<lambda>r. key r = sid) (e sid) = e sid"
    using assms(2) by (simp add: filter_id_conv)
  have other: "i \<noteq> sid \<Longrightarrow> filter (\<lambda>r. key r = sid) (e i) = []"
    using assms(2) by (auto simp: filter_empty_conv)
  from Cons show ?case
    by (cases "i = sid") (simp_all add: same other)
qed

lemma distinct_stack_identifiers: "distinct (getStackIdentifiers n)"
  by (simp add: getStackIdentifiers_def ALL_STACK_IDENTIFIERS_def)

text \<open>
  Claim C8. For every form value, stack count and identifier, each extractor returns
  exactly the sub-records of the identifier that the presence rule gives: none when the
  identifier is not active; otherwise one, when a presence-determining field of its group
  is filled (Replacement: the removed or the added serial number; Inspection and
  Tensioning: the serial number or the insight; Install: the serial number), and none when
  all of them are blank. A group missing from the form is the empty group, and a field
  missing from a group is not filled and reads as the empty text or \<open>False\<close>. A field
  that holds a string is filled exactly when the string is not empty, and reads as that
  string.
\<close>

theorem extraction_presence_rule:
  "filter (\<lambda>r. identifier r = sid) (extractStackReplacementsFromForm form n)
     = (if sid \<in> set (getStackIdentifiers n) then replacement_entry form sid else [])
   \<and> filter (\<lambda>r. identifier r = sid) (extractStackInspectionsFromForm form n)
     = (if sid \<in> set (getStackIdentifiers n)
        then inspection_entry ''stack_group_inspection_'' form sid else [])
   \<and> filter (\<lambda>r. identifier r = sid) (extractStackTensioningFromForm form n)
     = (if sid \<in> set (getStackIdentifiers n)
        then inspection_entry ''stack_group_tensioning_'' form sid else [])
   \<and> filter (\<lambda>r. identifier r = sid) (extractStackInstallsFromForm form n)
     = (if sid \<in> set (getStackIdentifiers n) then install_entry form sid else [])
   \<and> (map_of form (prefix @ sid) = None \<longrightarrow> group_of form prefix sid = JObj [])
   \<and> (map_of g key = None \<longrightarrow>
        \<not> filled (JObj g) key \<and> text_field (JObj g) key = [] \<and> \<not> flag_field (JObj g) key)
   \<and> (map_of g' key' = Some (JStr s) \<longrightarrow>
        filled (JObj g') key' = (s \<noteq> []) \<and> text_field (JObj g') key' = s)"
proof -
  have a: "filter (\<lambda>r. identifier r = sid) (extractStackReplacementsFromForm form n)
     = (if sid \<in> set (getStackIdentifiers n) then replacement_entry form sid else [])"
    unfolding extractStackReplacementsFromForm_def replacements_loop_entries
    using filter_concat_entries [OF distinct_stack_identifiers, of "replacement_entry form" "identifier"]
    by (simp add: replacement_entry_def Let_def split: if_splits)
  have b: "filter (\<lambda>r. identifier r = sid) (extractStackInspectionsFromForm form n)
     = (if sid \<in> set (getStackIdentifiers n)
        then inspection_entry ''stack_group_inspection_'' form sid else [])"
    unfolding extractStackInspectionsFromForm_def inspections_loop_entries
    using filter_concat_entries [OF distinct_stack_identifiers,
        of "inspection_entry ''stack_group_inspection_'' form" "identifier"]
    by (simp add: inspection_entry_def Let_def split: if_splits)
  have c: "filter (\<lambda>r. identifier r = sid) (extractStackTensioningFromForm form n)
     = (if sid \<in> set (getStackIdentifiers n)
        then inspection_entry ''stack_group_tensioning_'' form sid else [])"
    unfolding extractStackTensioningFromForm_def tensioning_loop_entries
    using filter_concat_entries [OF distinct_stack_identifiers,
        of "inspection_entry ''stack_group_tensioning_'' form" "identifier"]
    by (simp add: inspection_entry_def Let_def split: if_splits)
  have d: "filter (\<lambda>r. identifier r = sid) (extractStackInstallsFromForm form n)
     = (if sid \<in> set (getStackIdentifiers n) then install_entry form sid else [])"
    unfolding extractStackInstallsFromForm_def installs_loop_entries
    using filter_concat_entries [OF distinct_stack_identifiers, of "install_entry form" "identifier"]
    by (simp add: install_entry_def Let_def split: if_splits)
  have e: "map_of form (prefix @ sid) = None \<longrightarrow> group_of form prefix sid = JObj []"
    by (simp add: group_of_def jsget_def js_or_def)
  have f: "map_of g key = None \<longrightarrow>
        \<not> filled (JObj g) key \<and> text_field (JObj g) key = [] \<and> \<not> flag_field (JObj g) key"
    by (simp add: filled_def text_field_def flag_field_def getprop_def jsget_def js_or_def)
  have g: "map_of g' key' = Some (JStr s) \<longrightarrow>
        filled (JObj g') key' = (s \<noteq> []) \<and> text_field (JObj g') key' = s"
    by (simp add: filled_def text_field_def getprop_def jsget_def js_or_def)
  from a b c d e f g show ?thesis by blast
qed

lemmas extract_defs =
  extractStackReplacementsFromForm_def extractStackInspectionsFromForm_def
  extractStackTensioningFromForm_def extractStackInstallsFromForm_def
  getStackIdentifiers_def ALL_STACK_IDENTIFIERS_def jsget_def getprop_def js_or_def Let_def

text \<open>
  The presence rule at a form with filled, blank and missing groups and fields.
\<close>

theorem extraction_presence_rule_witness:
  "filter (\<lambda>r. identifier r = ''a'') (extractStackReplacementsFromForm example_form 5)
     = [\<lparr>identifier = ''a'', removed_serial_number = ''SN-100'', added_serial_number = [],
          stack_symptom = [], stack_symptom_confirmed = False\<rparr>]
   \<and> filter (\<lambda>r. identifier r = ''b'') (extractStackReplacementsFromForm example_form 5) = []
   \<and> filter (\<lambda>r. identifier r = ''a'') (extractStackInspectionsFromForm example_form 5)
     = [\<lparr>identifier = ''a'', serial_number = [], insight = ''no damage'', completed = False\<rparr>]
   \<and> filter (\<lambda>r. identifier r = ''b'') (extractStackTensioningFromForm example_form 5)
     = [\<lparr>identifier = ''b'', serial_number = ''SN-101'', insight = [], completed = True\<rparr>]
   \<and> filter (\<lambda>r. identifier r = ''a'') (extractStackInstallsFromForm example_form 5)
     = [\<lparr>identifier = ''a'', serial_number = ''SN-100''\<rparr>]
   \<and> filter (\<lambda>r. identifier r = ''b'') (extractStackInstallsFromForm example_form 5) = []
   \<and> map_of example_form (''stack_group_tensioning_'' @ ''a'') = None
   \<and> group_of example_form ''stack_group_tensioning_'' ''a'' = JObj []
   \<and> map_of [(''removed_serial_number_a'', JStr ''SN-100'')] ''added_serial_number_a'' = None
   \<and> text_field (JObj [(''removed_serial_number_a'', JStr ''SN-100'')]) ''added_serial_number_a'' = []
   \<and> \<not> flag_field (JObj [(''removed_serial_number_a'', JStr ''SN-100'')]) ''added_serial_number_a''
   \<and> map_of [(''removed_serial_number_a'', JStr ''SN-100'')] ''removed_serial_number_a''
       = Some (JStr ''SN-100'')
   \<and> filled (JObj [(''removed_serial_number_a'', JStr ''SN-100'')]) ''removed_serial_number_a''
   \<and> text_field (JObj [(''removed_serial_number_a'', JStr ''SN-100'')]) ''removed_serial_number_a''
       = ''SN-100''"
proof -
  have ids: "''a'' \<in> set (getStackIdentifiers 5)" "''b'' \<in> set (getStackIdentifiers 5)"
    by (simp_all add: getStackIdentifiers_def ALL_STACK_IDENTIFIERS_def)
  have h1: "map_of example_form (''stack_group_tensioning_'' @ ''a'') = None"
    by (simp add: example_form_def)
  have h2: "map_of [(''removed_serial_number_a'', JStr ''SN-100'')] ''added_serial_number_a'' = None"
    by simp
  have ra: "replacement_entry example_form ''a''
     = [\<lparr>identifier = ''a'', removed_serial_number = ''SN-100'', added_serial_number = [],
          stack_symptom = [], stack_symptom_confirmed = False\<rparr>]"
    by (simp add: replacement_entry_def group_of_def filled_def text_field_def flag_field_def
        example_form_def jsget_def getprop_def js_or_def)
  have rb: "replacement_entry example_form ''b'' = []"
    by (simp add: replacement_entry_def group_of_def filled_def text_field_def flag_field_def
        example_form_def jsget_def getprop_def js_or_def)
  have ia: "inspection_entry ''stack_group_inspection_'' example_form ''a''
     = [\<lparr>identifier = ''a'', serial_number = [], insight = ''no damage'', completed = False\<rparr>]"
    by (simp add: inspection_entry_def group_of_def filled_def text_field_def flag_field_def
        example_form_def jsget_def getprop_def js_or_def)
  have tb: "inspection_entry ''stack_group_tensioning_'' example_form ''b''
     = [\<lparr>identifier = ''b'', serial_number = ''SN-101'', insight = [], completed = True\<rparr>]"
    by (simp add: inspection_entry_def group_of_def filled_def text_field_def flag_field_def
        example_form_def jsget_def getprop_def js_or_def)
  have na: "install_entry example_form ''a'' = [\<lparr>identifier = ''a'', serial_number = ''SN-100''\<rparr>]"
    by (simp add: install_entry_def group_of_def filled_def text_field_def
        example_form_def jsget_def getprop_def js_or_def)
  have nb: "install_entry example_form ''b'' = []"
    by (simp add: install_entry_def group_of_def filled_def text_field_def
        example_form_def jsget_def getprop_def js_or_def)
  show ?thesis
    using ids h1 h2 ra rb ia tb na nb
      extraction_presence_rule [of "''a''" example_form 5 "''stack_group_tensioning_''"
        "[(''removed_serial_number_a'', JStr ''SN-100'')]" "''added_serial_number_a''"
        "[(''removed_serial_number_a'', JStr ''SN-100'')]" "''removed_serial_number_a''"
        "''SN-100''"]
      extraction_presence_rule [of "''b''" example_form 5 "''stack_group_tensioning_''"
        "[(''removed_serial_number_a'', JStr ''SN-100'')]" "''added_serial_number_a''"
        "[(''removed_serial_number_a'', JStr ''SN-100'')]" "''removed_serial_number_a''"
        "''SN-100''"]
    by simp
qed

text \<open>
  Claim C6. For each stack category, when the extraction from the submitted form gives no
  sub-record, \<^verbatim>\<open>serializeFormValue\<close> returns a patch that holds null in the category's
  encoded field; and each parser decodes an absent field to the empty list.
\<close>

theorem empty_list_encoding:
  "(extractStackReplacementsFromForm form (getStackCount helpers) = []
      \<longrightarrow> (\<exists>p. serializeFormValue stackReplacements form helpers = Inr p
               \<and> p ''stack_replacements'' = Some JNull))
   \<and> (extractStackInspectionsFromForm form (getStackCount helpers) = []
      \<longrightarrow> (\<exists>p. serializeFormValue stackInspection form helpers = Inr p
               \<and> p ''stack_inspections'' = Some JNull))
   \<and> (extractStackTensioningFromForm form (getStackCount helpers) = []
      \<longrightarrow> (\<exists>p. serializeFormValue stackTensioning form helpers = Inr p
               \<and> p ''stack_tensioning'' = Some JNull))
   \<and> (extractStackInstallsFromForm form (getStackCount helpers) = []
      \<longrightarrow> (\<exists>p. serializeFormValue stackInstalls form helpers = Inr p
               \<and> p ''stack_installs'' = Some JNull))
   \<and> parseStackReplacements None = [] \<and> parseStackInspections None = []
   \<and> parseStackTensioning None = [] \<and> parseStackInstalls None = []"
  by (simp add: stackReplacements_def stackInspection_def stackTensioning_def stackInstalls_def
      parseStackReplacements_def parseStackInspections_def parseStackTensioning_def
      parseStackInstalls_def)

text \<open>
  A form with every presence-determining field blank, for five stacks.
\<close>

theorem empty_list_encoding_witness:
  "extractStackReplacementsFromForm blank_form (getStackCount five_stacks) = []
   \<and> extractStackInspectionsFromForm blank_form (getStackCount five_stacks) = []
   \<and> extractStackTensioningFromForm blank_form (getStackCount five_stacks) = []
   \<and> extractStackInstallsFromForm blank_form (getStackCount five_stacks) = []
   \<and> (\<exists>p. serializeFormValue stackReplacements blank_form five_stacks = Inr p
          \<and> p ''stack_replacements'' = Some JNull)
   \<and> (\<exists>p. serializeFormValue stackInspection blank_form five_stacks = Inr p
          \<and> p ''stack_inspections'' = Some JNull)
   \<and> (\<exists>p. serializeFormValue stackTensioning blank_form five_stacks = Inr p
          \<and> p ''stack_tensioning'' = Some JNull)
   \<and> (\<exists>p. serializeFormValue stackInstalls blank_form five_stacks = Inr p
          \<and> p ''stack_installs'' = Some JNull)"
proof -
  have e: "extractStackReplacementsFromForm blank_form (getStackCount five_stacks) = []"
    "extractStackInspectionsFromForm blank_form (getStackCount five_stacks) = []"
    "extractStackTensioningFromForm blank_form (getStackCount five_stacks) = []"
    "extractStackInstallsFromForm blank_form (getStackCount five_stacks) = []"
    by (simp_all add: extract_defs blank_form_def five_stacks_def)
  show ?thesis
    using e empty_list_encoding [of blank_form five_stacks] by blast
qed

lemma serialize_no_items:
  "serializeStackReplacements [] = [semi]" "serializeStackInspections [] = [semi]"
  "serializeStackTensioning [] = [semi]" "serializeStackInstalls [] = [semi]"
  by (simp_all add: serializeStackReplacements_def serializeStackInspections_def
      serializeStackTensioning_def serializeStackInstalls_def)

text \<open>
  Claim C9. Without elevated access the options are the four categories whose
  \<open>internalOnly\<close> flag is false, in registration order; with elevated access they are all
  eight registered categories, in registration order.
\<close>

theorem category_options_by_access:
  "getCategoryOptions False
     = [(''Calibration'', ''Calibration''), (''Software update'', ''Software update''),
        (''Settings change'', ''Settings change''), (''Other'', ''Other'')]
   \<and> getCategoryOptions False
     = map (\<lambda>c. (cfg_value c, label c)) (filter (\<lambda>c. internalOnly c = False) CATEGORY_CONFIGS)
   \<and> getCategoryOptions True = map (\<lambda>c. (cfg_value c, label c)) CATEGORY_CONFIGS
   \<and> getCategoryOptions True
     = [(''Calibration'', ''Calibration''), (''Software update'', ''Software update''),
        (''Settings change'', ''Settings change''),
        (''Stack replacements'', ''Stack replacements''),
        (''Stack inspection'', ''Stack visual inspection''),
        (''Stack tensioning'', ''Stack tensioning''), (''Stack installs'', ''Stack installs''),
        (''Other'', ''Other'')]
   \<and> length CATEGORY_CONFIGS = 8"
  by (simp add: getCategoryOptions_def CATEGORY_CONFIGS_def calibration_def softwareUpdate_def
      settingsChange_def stackReplacements_def stackInspection_def stackTensioning_def
      stackInstalls_def other_def)

section \<open>Properties of the form handlers\<close>

lemma cfg_values:
  "cfg_value calibration = ''Calibration''" "cfg_value softwareUpdate = ''Software update''"
  "cfg_value settingsChange = ''Settings change''"
  "cfg_value stackReplacements = ''Stack replacements''"
  "cfg_value stackInspection = ''Stack inspection''"
  "cfg_value stackTensioning = ''Stack tensioning''"
  "cfg_value stackInstalls = ''Stack installs''" "cfg_value other = ''Other''"
  by (simp_all add: calibration_def softwareUpdate_def settingsChange_def stackReplacements_def
      stackInspection_def stackTensioning_def stackInstalls_def other_def)

lemma getCategoryConfig_values:
  "getCategoryConfig (JStr ''Calibration'') = Some calibration"
  "getCategoryConfig (JStr ''Software update'') = Some softwareUpdate"
  "getCategoryConfig (JStr ''Settings change'') = Some settingsChange"
  "getCategoryConfig (JStr ''Stack replacements'') = Some stackReplacements"
  "getCategoryConfig (JStr ''Stack inspection'') = Some stackInspection"
  "getCategoryConfig (JStr ''Stack tensioning'') = Some stackTensioning"
  "getCategoryConfig (JStr ''Stack installs'') = Some stackInstalls"
  "getCategoryConfig (JStr ''Other'') = Some other"
  by (simp_all add: getCategoryConfig_def configByValue_def CATEGORY_CONFIGS_def cfg_values)

lemma getCategoryConfig_registered:
  "getCategoryConfig c = Some cfg \<Longrightarrow> cfg \<in> set CATEGORY_CONFIGS"
proof -
  assume "getCategoryConfig c = Some cfg"
  then obtain s where "configByValue s = Some cfg"
    by (auto simp: getCategoryConfig_def split: if_splits jsval.splits)
  then have "(s, cfg) \<in> set (rev (map (\<lambda>c. (cfg_value c, c)) CATEGORY_CONFIGS))"
    unfolding configByValue_def by (rule map_of_SomeD)
  then show ?thesis by auto
qed

lemma registered_cases:
  assumes "cfg \<in> set CATEGORY_CONFIGS"
  obtains "cfg = calibration" | "cfg = softwareUpdate" | "cfg = settingsChange"
    | "cfg = stackReplacements" | "cfg = stackInspection" | "cfg = stackTensioning"
    | "cfg = stackInstalls" | "cfg = other"
  using assms by (auto simp: CATEGORY_CONFIGS_def)

lemma serialize_tag_numbers_keys:
  "serialize_tag_numbers form h = Inr s \<Longrightarrow> s k \<noteq> None \<Longrightarrow> k = ''tag_numbers''"
  by (auto simp: serialize_tag_numbers_def split: jsval.splits sum.splits if_splits)

lemma serialized_keys:
  assumes "cfg \<in> set CATEGORY_CONFIGS" and "serializeFormValue cfg form h = Inr s"
    and "s k \<noteq> None"
  shows "k \<in> set category_owned_fields"
  using assms(1)
proof (cases rule: registered_cases)
  case 1
  with assms(2,3) show ?thesis
    using serialize_tag_numbers_keys [of form h s k]
    by (simp add: calibration_def category_owned_fields_def)
next
  case 2
  with assms(2,3) show ?thesis
    by (auto simp: softwareUpdate_def category_owned_fields_def split: if_splits)
next
  case 3
  with assms(2,3) show ?thesis
    using serialize_tag_numbers_keys [of form h s k]
    by (simp add: settingsChange_def category_owned_fields_def)
next
  case 4
  with assms(2,3) show ?thesis
    by (auto simp: stackReplacements_def category_owned_fields_def Let_def split: if_splits)
next
  case 5
  with assms(2,3) show ?thesis
    by (auto simp: stackInspection_def category_owned_fields_def Let_def split: if_splits)
next
  case 6
  with assms(2,3) show ?thesis
    by (auto simp: stackTensioning_def category_owned_fields_def Let_def split: if_splits)
next
  case 7
  with assms(2,3) show ?thesis
    by (auto simp: stackInstalls_def category_owned_fields_def Let_def split: if_splits)
next
  case 8
  with assms(2,3) show ?thesis
    by (auto simp: other_def)
qed

lemma serialized_fields_keys:
  assumes "serialized_fields (getCategoryConfig c) form h = Inr s"
    and "k \<notin> set category_owned_fields"
  shows "s k = None"
proof (cases "getCategoryConfig c")
  case None
  with assms(1) show ?thesis by (auto simp: serialized_fields_def)
next
  case (Some cfg)
  then have r: "cfg \<in> set CATEGORY_CONFIGS" by (rule getCategoryConfig_registered)
  from assms(1) Some have "serializeFormValue cfg form h = Inr s"
    by (simp add: serialized_fields_def)
  with r assms(2) show ?thesis
    using serialized_keys [of cfg form h s k] by blast
qed

lemma validate_ignores_isEdit:
  assumes "cfg \<in> set CATEGORY_CONFIGS"
  shows "validation_error (Some cfg) form (h\<lparr>isEdit := b\<rparr>) = validation_error (Some cfg) form h"
  using assms
  by (cases rule: registered_cases)
    (simp_all add: validation_error_def calibration_def softwareUpdate_def settingsChange_def
      stackReplacements_def stackInspection_def stackTensioning_def stackInstalls_def other_def)

lemma validation_error_isEdit:
  "validation_error (getCategoryConfig c) form (h\<lparr>isEdit := b\<rparr>)
     = validation_error (getCategoryConfig c) form h"
proof (cases "getCategoryConfig c")
  case None
  then show ?thesis by (simp add: validation_error_def)
next
  case (Some cfg)
  then show ?thesis
    using validate_ignores_isEdit [OF getCategoryConfig_registered [OF Some]] by simp
qed

lemma add_loop_note:
  "truthy c \<Longrightarrow>
   add_loop fromISO h pp Step_note c (Submitted form # rs)
     = OpenFormDialog (FieldsDialog (buildFullInputs c h pp) None)
         # (case add_submit fromISO h pp c form of
              ValidationError message \<Rightarrow>
                OpenAlertDialog ''Validation Error'' message # add_loop fromISO h pp Step_note c rs
            | Threw e \<Rightarrow> [Throw e]
            | Persist noteData \<Rightarrow> [NotesAdd noteData])"
  by (subst add_loop.simps) simp

lemma add_loop_note_opens:
  "truthy c \<Longrightarrow>
   \<exists>tr. add_loop fromISO h pp Step_note c rs
           = OpenFormDialog (FieldsDialog (buildFullInputs c h pp) None) # tr"
  by (subst add_loop.simps) simp

lemma recategorize_loop_fill:
  "truthy c \<Longrightarrow>
   recategorize_loop fromISO h pp note Step_fill_new_fields c (Submitted form # rs)
     = OpenFormDialog (FieldsDialog (buildFullInputs c h pp) None)
         # (case recategorize_submit fromISO h pp c form of
              ValidationError message \<Rightarrow>
                OpenAlertDialog ''Validation Error'' message
                  # recategorize_loop fromISO h pp note Step_fill_new_fields c rs
            | Threw e \<Rightarrow> [Throw e]
            | Persist updatedNote \<Rightarrow> [NotesEdit (note_id note) updatedNote])"
  by (subst recategorize_loop.simps) simp

lemma recategorize_loop_fill_opens:
  "truthy c \<Longrightarrow>
   \<exists>tr. recategorize_loop fromISO h pp note Step_fill_new_fields c rs
           = OpenFormDialog (FieldsDialog (buildFullInputs c h pp) None) # tr"
  by (subst recategorize_loop.simps) simp

lemma add_submit_invalid:
  "validation_error (getCategoryConfig c) form h = Some msg
     \<Longrightarrow> add_submit fromISO h pp c form = ValidationError msg"
  by (simp add: add_submit_def)

lemma recategorize_submit_invalid:
  "validation_error (getCategoryConfig c) form h = Some msg
     \<Longrightarrow> recategorize_submit fromISO h pp c form = ValidationError msg"
  by (simp add: recategorize_submit_def)

lemma clear_fields_apply:
  "clear_fields fs p k = (if k \<in> set fs then Some (js_nc (patch_get p k) JNull) else p k)"
proof (induction fs arbitrary: p)
  case Nil
  then show ?case by simp
next
  case (Cons f fs)
  show ?case
    by (simp add: Cons.IH patch_get_def js_nc_def nullish_def)
qed

lemma transform_tags_other:
  "transform_tags t u = Inr u' \<Longrightarrow> k \<noteq> ''tag_numbers'' \<Longrightarrow> u' k = u k"
  by (auto simp: transform_tags_def split: jsval.splits sum.splits)

lemma transform_tags_tag:
  "transform_tags t u = Inr u' \<Longrightarrow>
   u' ''tag_numbers'' = (case t of JArr items \<Rightarrow> (case map_tags items of Inr tags \<Rightarrow> Some (JArr tags) | Inl e \<Rightarrow> None)
                         | _ \<Rightarrow> u ''tag_numbers'')"
  by (auto simp: transform_tags_def split: jsval.splits sum.splits)

lemma not_owned:
  "''note_category'' \<notin> set category_owned_fields" "''external_note'' \<notin> set category_owned_fields"
  "''performed_on'' \<notin> set category_owned_fields" "''text'' \<notin> set category_owned_fields"
  by (simp_all add: category_owned_fields_def)

lemma add_submit_PersistD:
  assumes "add_submit fromISO h pp c form = Persist p"
  obtains s where "validation_error (getCategoryConfig c) form h = None"
    and "serialized_fields (getCategoryConfig c) form h = Inr s"
    and "p = (let noteData = [''note_category'' \<mapsto> c,
                              ''external_note'' \<mapsto> external_note_of pp form] ++ s;
                  noteData = (if truthy (jsget form ''performed_on'')
                                 \<and> isValid (fromISO (jsget form ''performed_on''))
                              then noteData(''performed_on'' \<mapsto>
                                     toMillis (fromISO (jsget form ''performed_on'')))
                              else noteData)
              in noteData ++ (map_of form)(''performed_on'' := None, ''external_note'' := None))"
  using assms
  by (auto simp: add_submit_def Let_def split: option.splits sum.splits)

lemma recategorize_submit_PersistD:
  assumes "recategorize_submit fromISO h pp c form = Persist p"
  obtains u s where "validation_error (getCategoryConfig c) form h = None"
    and "transform_tags (jsget form ''tag_numbers'')
           (let updatedNote = [''note_category'' \<mapsto> c,
                               ''external_note'' \<mapsto> external_note_of pp form]
            in if truthy (jsget form ''performed_on'')
                  \<and> isValid (fromISO (jsget form ''performed_on''))
               then updatedNote(''performed_on'' \<mapsto> toMillis (fromISO (jsget form ''performed_on'')))
               else updatedNote) = Inr u"
    and "serialized_fields (getCategoryConfig c) form h = Inr s"
    and "p = clear_fields category_owned_fields
               (if jsget form ''text'' \<noteq> JUndefined
                then (u ++ s)(''text'' \<mapsto> jsget form ''text'') else u ++ s)"
  using assms
  by (auto simp: recategorize_submit_def Let_def split: option.splits sum.splits)

lemma add_submit_external_note:
  assumes "add_submit fromISO h pp c form = Persist p"
  shows "p ''external_note'' = Some (external_note_of pp form)"
proof -
  from assms obtain s where s: "serialized_fields (getCategoryConfig c) form h = Inr s"
    and p: "p = (let noteData = [''note_category'' \<mapsto> c,
                              ''external_note'' \<mapsto> external_note_of pp form] ++ s;
                  noteData = (if truthy (jsget form ''performed_on'')
                                 \<and> isValid (fromISO (jsget form ''performed_on''))
                              then noteData(''performed_on'' \<mapsto>
                                     toMillis (fromISO (jsget form ''performed_on'')))
                              else noteData)
              in noteData ++ (map_of form)(''performed_on'' := None, ''external_note'' := None))"
    by (rule add_submit_PersistD)
  have "s ''external_note'' = None"
    using s not_owned(2) by (rule serialized_fields_keys)
  then show ?thesis by (simp add: p Let_def map_add_def)
qed

lemma recategorize_submit_external_note:
  assumes "recategorize_submit fromISO h pp c form = Persist p"
  shows "p ''external_note'' = Some (external_note_of pp form)"
    and "p ''note_category'' = Some c"
proof -
  from assms obtain u s where
    u: "transform_tags (jsget form ''tag_numbers'')
           (let updatedNote = [''note_category'' \<mapsto> c,
                               ''external_note'' \<mapsto> external_note_of pp form]
            in if truthy (jsget form ''performed_on'')
                  \<and> isValid (fromISO (jsget form ''performed_on''))
               then updatedNote(''performed_on'' \<mapsto> toMillis (fromISO (jsget form ''performed_on'')))
               else updatedNote) = Inr u"
    and s: "serialized_fields (getCategoryConfig c) form h = Inr s"
    and p: "p = clear_fields category_owned_fields
               (if jsget form ''text'' \<noteq> JUndefined
                then (u ++ s)(''text'' \<mapsto> jsget form ''text'') else u ++ s)"
    by (rule recategorize_submit_PersistD)
  have se: "s ''external_note'' = None" using s not_owned(2) by (rule serialized_fields_keys)
  have sc: "s ''note_category'' = None" using s not_owned(1) by (rule serialized_fields_keys)
  have ue: "u ''external_note'' = Some (external_note_of pp form)"
    using transform_tags_other [OF u, of "''external_note''"] by (simp add: Let_def)
  have uc: "u ''note_category'' = Some c"
    using transform_tags_other [OF u, of "''note_category''"] by (simp add: Let_def)
  show "p ''external_note'' = Some (external_note_of pp form)"
    using se ue by (simp add: p clear_fields_apply not_owned map_add_def)
  show "p ''note_category'' = Some c"
    using sc uc by (simp add: p clear_fields_apply not_owned map_add_def)
qed

text \<open>
  Claim C10. In the Add and the Recategorize flow, a submission at the fill step that is
  persisted is persisted with \<open>external_note = true\<close> when the user lacks elevated access,
  whatever the form holds under \<open>external_note\<close>, and with the submitted value, or
  \<open>false\<close> when that is null or undefined, when the user has elevated access.
\<close>

theorem external_note_by_access:
  assumes "truthy c"
  shows "(add_submit fromISO h pp c form = Persist p
            \<longrightarrow> add_loop fromISO h pp Step_note c (Submitted form # rs)
                  = [OpenFormDialog (FieldsDialog (buildFullInputs c h pp) None), NotesAdd p]
                \<and> p ''external_note''
                  = Some (if pp then js_nc (jsget form ''external_note'') (JBool False)
                          else JBool True))
       \<and> (recategorize_submit fromISO h pp c form = Persist q
            \<longrightarrow> recategorize_loop fromISO h pp note Step_fill_new_fields c (Submitted form # rs)
                  = [OpenFormDialog (FieldsDialog (buildFullInputs c h pp) None),
                     NotesEdit (note_id note) q]
                \<and> q ''external_note''
                  = Some (if pp then js_nc (jsget form ''external_note'') (JBool False)
                          else JBool True))"
  using assms add_submit_external_note [of fromISO h pp c form p]
    recategorize_submit_external_note(1) [of fromISO h pp c form q]
  by (simp add: add_loop_note recategorize_loop_fill external_note_of_def)

lemmas eval_defs =
  validation_error_def serialized_fields_def getCategoryConfig_values external_note_of_def
  jsget_def getprop_def js_or_def js_nc_def nullish_def patch_get_def transform_tags_def
  serialize_tag_numbers_def Let_def map_add_def

lemma calibration_form_add:
  "\<exists>p. add_submit example_fromISO five_stacks False (JStr ''Calibration'') calibration_form
          = Persist p"
  by (simp add: add_submit_def eval_defs calibration_def calibration_form_def)

lemma calibration_form_recategorize:
  "\<exists>p. recategorize_submit example_fromISO five_stacks False (JStr ''Calibration'')
          calibration_form = Persist p"
  by (simp add: recategorize_submit_def eval_defs calibration_def calibration_form_def)

text \<open>
  A calibration form submitted with \<open>external_note = false\<close> by a user without elevated
  access: both flows persist \<open>external_note = true\<close>.
\<close>

theorem external_note_by_access_witness:
  "truthy (JStr ''Calibration'')
   \<and> (\<exists>p. add_submit example_fromISO five_stacks False (JStr ''Calibration'') calibration_form
            = Persist p
          \<and> handleAddNote example_fromISO five_stacks False
              [Submitted [(''category'', JStr ''Calibration'')], Submitted calibration_form]
            = [OpenFormDialog (CategoryDialog ''category'' (getCategoryOptions False)),
               OpenFormDialog
                 (FieldsDialog (buildFullInputs (JStr ''Calibration'') five_stacks False) None),
               NotesAdd p]
          \<and> p ''external_note'' = Some (JBool True))
   \<and> (\<exists>q. recategorize_submit example_fromISO five_stacks False (JStr ''Calibration'')
              calibration_form = Persist q
          \<and> q ''external_note'' = Some (JBool True))"
proof -
  have t: "truthy (JStr ''Calibration'')" by simp
  obtain p where p: "add_submit example_fromISO five_stacks False (JStr ''Calibration'')
      calibration_form = Persist p"
    using calibration_form_add by blast
  obtain q where q: "recategorize_submit example_fromISO five_stacks False (JStr ''Calibration'')
      calibration_form = Persist q"
    using calibration_form_recategorize by blast
  have l: "handleAddNote example_fromISO five_stacks False
              [Submitted [(''category'', JStr ''Calibration'')], Submitted calibration_form]
            = OpenFormDialog (CategoryDialog ''category'' (getCategoryOptions False))
               # add_loop example_fromISO five_stacks False Step_note (JStr ''Calibration'')
                   [Submitted calibration_form]"
    by (simp add: handleAddNote_def add_loop.simps(3) jsget_def)
  show ?thesis
    using t p q l
      external_note_by_access [OF t, of example_fromISO five_stacks False calibration_form p "[]"
        q replacements_note]
    by auto
qed

lemma serialized_tag_array:
  assumes "serialized_fields (getCategoryConfig c) form h = Inr s"
    and "jsget form ''tag_numbers'' = JArr items" and "map_tags items = Inr tags"
  shows "s ''tag_numbers'' = None \<or> s ''tag_numbers'' = Some (JArr tags)"
proof (cases "getCategoryConfig c")
  case None
  with assms(1) show ?thesis by (auto simp: serialized_fields_def)
next
  case (Some cfg)
  then have "cfg \<in> set CATEGORY_CONFIGS" by (rule getCategoryConfig_registered)
  then show ?thesis
  proof (cases rule: registered_cases)
    case 1
    with assms Some show ?thesis
      by (auto simp: serialized_fields_def calibration_def serialize_tag_numbers_def)
  next
    case 3
    with assms Some show ?thesis
      by (auto simp: serialized_fields_def settingsChange_def serialize_tag_numbers_def)
  qed (use assms(1) Some in \<open>auto simp: serialized_fields_def softwareUpdate_def
        stackReplacements_def stackInspection_def stackTensioning_def stackInstalls_def
        other_def Let_def split: if_splits\<close>)
qed

lemma serialized_tag_no_array:
  assumes "serialized_fields (getCategoryConfig c) form h = Inr s"
    and "\<not> is_array (jsget form ''tag_numbers'')"
  shows "s ''tag_numbers'' = None \<or> s ''tag_numbers'' = Some JNull"
proof (cases "getCategoryConfig c")
  case None
  with assms(1) show ?thesis by (auto simp: serialized_fields_def)
next
  case (Some cfg)
  then have "cfg \<in> set CATEGORY_CONFIGS" by (rule getCategoryConfig_registered)
  then show ?thesis
  proof (cases rule: registered_cases)
    case 1
    with assms Some show ?thesis
      by (auto simp: serialized_fields_def calibration_def serialize_tag_numbers_def is_array_def
          split: jsval.splits)
  next
    case 3
    with assms Some show ?thesis
      by (auto simp: serialized_fields_def settingsChange_def serialize_tag_numbers_def
          is_array_def split: jsval.splits)
  qed (use assms(1) Some in \<open>auto simp: serialized_fields_def softwareUpdate_def
        stackReplacements_def stackInspection_def stackTensioning_def stackInstalls_def
        other_def Let_def split: if_splits\<close>)
qed

text \<open>
  Claim C4, as the code has it. A recategorization submitted at the fill step whose
  validation passes sends one update patch. The patch sets \<open>note_category\<close> to the new
  category key, and every category-owned field other than \<open>tag_numbers\<close> to the value the
  new category's serialization produced for it, or to null when the serialization produced
  none (or a null one). The handler converts a submitted tag list for every new category:
  \<open>tag_numbers\<close> is the converted list whenever the form holds a list, and null otherwise.
\<close>

theorem recategorize_resets_owned_fields:
  assumes "recategorize_submit fromISO h pp c form = Persist p" and "truthy c"
  shows "recategorize_loop fromISO h pp note Step_fill_new_fields c (Submitted form # rs)
           = [OpenFormDialog (FieldsDialog (buildFullInputs c h pp) None),
              NotesEdit (note_id note) p]
       \<and> p ''note_category'' = Some c
       \<and> (\<exists>s. serialized_fields (getCategoryConfig c) form h = Inr s
              \<and> (\<forall>f \<in> set category_owned_fields.
                    f \<noteq> ''tag_numbers'' \<longrightarrow> p f = Some (js_nc (patch_get s f) JNull)))
       \<and> (\<forall>items. jsget form ''tag_numbers'' = JArr items
              \<longrightarrow> (\<exists>tags. map_tags items = Inr tags \<and> p ''tag_numbers'' = Some (JArr tags)))
       \<and> (\<not> is_array (jsget form ''tag_numbers'') \<longrightarrow> p ''tag_numbers'' = Some JNull)"
proof -
  from assms(1) obtain u s where
    u: "transform_tags (jsget form ''tag_numbers'')
           (let updatedNote = [''note_category'' \<mapsto> c,
                               ''external_note'' \<mapsto> external_note_of pp form]
            in if truthy (jsget form ''performed_on'')
                  \<and> isValid (fromISO (jsget form ''performed_on''))
               then updatedNote(''performed_on'' \<mapsto> toMillis (fromISO (jsget form ''performed_on'')))
               else updatedNote) = Inr u"
    and s: "serialized_fields (getCategoryConfig c) form h = Inr s"
    and p: "p = clear_fields category_owned_fields
               (if jsget form ''text'' \<noteq> JUndefined
                then (u ++ s)(''text'' \<mapsto> jsget form ''text'') else u ++ s)"
    by (rule recategorize_submit_PersistD)
  have pf: "p f = Some (js_nc (patch_get (u ++ s) f) JNull)"
    if f: "f \<in> set category_owned_fields" for f
  proof -
    have "f \<noteq> ''text''" using f not_owned(4) by auto
    then show ?thesis using f by (simp add: p clear_fields_apply patch_get_def)
  qed
  have tag_owned: "''tag_numbers'' \<in> set category_owned_fields"
    by (simp add: category_owned_fields_def)
  have other_fields: "p f = Some (js_nc (patch_get s f) JNull)"
    if f: "f \<in> set category_owned_fields" and ft: "f \<noteq> ''tag_numbers''" for f
  proof -
    have "u f = (let updatedNote = [''note_category'' \<mapsto> c,
                               ''external_note'' \<mapsto> external_note_of pp form]
            in if truthy (jsget form ''performed_on'')
                  \<and> isValid (fromISO (jsget form ''performed_on''))
               then updatedNote(''performed_on'' \<mapsto> toMillis (fromISO (jsget form ''performed_on'')))
               else updatedNote) f"
      using u ft by (rule transform_tags_other)
    then have "u f = None" using f not_owned by (auto simp: Let_def)
    then show ?thesis by (cases "s f") (simp_all add: pf [OF f] patch_get_def map_add_def)
  qed
  have with_list: "\<exists>tags. map_tags items = Inr tags \<and> p ''tag_numbers'' = Some (JArr tags)"
    if a: "jsget form ''tag_numbers'' = JArr items" for items
  proof -
    from u a obtain tags where t: "map_tags items = Inr tags"
      by (auto simp: transform_tags_def split: sum.splits)
    have ut: "u ''tag_numbers'' = Some (JArr tags)"
      using transform_tags_tag [OF u] a t by simp
    have "s ''tag_numbers'' = None \<or> s ''tag_numbers'' = Some (JArr tags)"
      using s a t by (rule serialized_tag_array)
    then have "p ''tag_numbers'' = Some (JArr tags)"
      using ut by (auto simp: pf [OF tag_owned] patch_get_def map_add_def js_nc_def nullish_def)
    with t show ?thesis by blast
  qed
  have without_list: "p ''tag_numbers'' = Some JNull"
    if a: "\<not> is_array (jsget form ''tag_numbers'')"
  proof -
    have ut: "u ''tag_numbers'' = None"
      using transform_tags_tag [OF u] a by (auto simp: is_array_def Let_def split: jsval.splits)
    have "s ''tag_numbers'' = None \<or> s ''tag_numbers'' = Some JNull"
      using s a by (rule serialized_tag_no_array)
    then show ?thesis
      using ut by (auto simp: pf [OF tag_owned] patch_get_def map_add_def js_nc_def nullish_def)
  qed
  have "recategorize_loop fromISO h pp note Step_fill_new_fields c (Submitted form # rs)
           = [OpenFormDialog (FieldsDialog (buildFullInputs c h pp) None),
              NotesEdit (note_id note) p]"
    using assms by (simp add: recategorize_loop_fill)
  moreover have "p ''note_category'' = Some c"
    using assms(1) by (rule recategorize_submit_external_note(2))
  ultimately show ?thesis using s other_fields with_list without_list by blast
qed

text \<open>
  Recategorizing a note of category \<open>Stack replacements\<close> with a replacements string to
  \<open>Calibration\<close>: the four stack strings, the work order id, the software type and the
  version are null in the patch, and the tag list is the list submitted. A form without a
  tag list, recategorized to \<open>Other\<close>, gives null for \<open>tag_numbers\<close>.
\<close>

theorem recategorize_resets_owned_fields_witness:
  "note_category replacements_note = Some ''Stack replacements''
   \<and> stack_replacements replacements_note \<noteq> None
   \<and> truthy (JStr ''Calibration'')
   \<and> jsget calibration_form ''tag_numbers''
       = JArr [JObj [(''tag_number'', JStr ''PT-101'')], JStr ''TT-7'']
   \<and> map_tags [JObj [(''tag_number'', JStr ''PT-101'')], JStr ''TT-7'']
       = Inr [JStr ''PT-101'', JStr ''TT-7'']
   \<and> (\<exists>p. recategorize_submit example_fromISO five_stacks False (JStr ''Calibration'')
              calibration_form = Persist p
          \<and> handleRecategorizeNote example_fromISO five_stacks False replacements_note
              [Submitted [(''new_category'', JStr ''Calibration'')], Submitted calibration_form]
            = [OpenFormDialog (CategoryDialog ''new_category'' (getCategoryOptions False)),
               OpenFormDialog
                 (FieldsDialog (buildFullInputs (JStr ''Calibration'') five_stacks False) None),
               NotesEdit ''note-17'' p]
          \<and> p ''note_category'' = Some (JStr ''Calibration'')
          \<and> p ''stack_replacements'' = Some JNull \<and> p ''workorder_id'' = Some JNull
          \<and> p ''stack_inspections'' = Some JNull \<and> p ''stack_installs'' = Some JNull
          \<and> p ''stack_tensioning'' = Some JNull \<and> p ''software_type'' = Some JNull
          \<and> p ''version'' = Some JNull
          \<and> p ''tag_numbers'' = Some (JArr [JStr ''PT-101'', JStr ''TT-7'']))
   \<and> \<not> is_array (jsget blank_form ''tag_numbers'')
   \<and> (\<exists>q. recategorize_submit example_fromISO five_stacks False (JStr ''Other'') blank_form
            = Persist q
          \<and> q ''tag_numbers'' = Some JNull)"
proof -
  have n: "note_category replacements_note = Some ''Stack replacements''"
    "stack_replacements replacements_note \<noteq> None" "note_id replacements_note = ''note-17''"
    by (simp_all add: replacements_note_def)
  have t: "truthy (JStr ''Calibration'')" "truthy (JStr ''Other'')" by simp_all
  have a: "jsget calibration_form ''tag_numbers''
       = JArr [JObj [(''tag_number'', JStr ''PT-101'')], JStr ''TT-7'']"
    by (simp add: calibration_form_def jsget_def)
  have m: "map_tags [JObj [(''tag_number'', JStr ''PT-101'')], JStr ''TT-7'']
       = Inr [JStr ''PT-101'', JStr ''TT-7'']"
    by (simp add: getprop_def jsget_def)
  have b: "\<not> is_array (jsget blank_form ''tag_numbers'')"
    by (simp add: blank_form_def jsget_def is_array_def)
  obtain p where p: "recategorize_submit example_fromISO five_stacks False (JStr ''Calibration'')
      calibration_form = Persist p"
    using calibration_form_recategorize by blast
  obtain q where q: "recategorize_submit example_fromISO five_stacks False (JStr ''Other'')
      blank_form = Persist q"
    by (simp add: recategorize_submit_def eval_defs other_def blank_form_def)
  have s: "serialized_fields (getCategoryConfig (JStr ''Calibration'')) calibration_form five_stacks
             = Inr [''tag_numbers'' \<mapsto> JArr [JStr ''PT-101'', JStr ''TT-7'']]"
    by (simp add: eval_defs calibration_def calibration_form_def)
  have l: "handleRecategorizeNote example_fromISO five_stacks False replacements_note
              [Submitted [(''new_category'', JStr ''Calibration'')], Submitted calibration_form]
            = OpenFormDialog (CategoryDialog ''new_category'' (getCategoryOptions False))
               # recategorize_loop example_fromISO five_stacks False replacements_note
                   Step_fill_new_fields (JStr ''Calibration'') [Submitted calibration_form]"
    by (simp add: handleRecategorizeNote_def recategorize_loop.simps(3) jsget_def)
  have "recategorize_loop example_fromISO five_stacks False replacements_note
           Step_fill_new_fields (JStr ''Calibration'') [Submitted calibration_form]
           = [OpenFormDialog
                (FieldsDialog (buildFullInputs (JStr ''Calibration'') five_stacks False) None),
              NotesEdit (note_id replacements_note) p]
       \<and> p ''note_category'' = Some (JStr ''Calibration'')
       \<and> (\<forall>f \<in> set category_owned_fields. f \<noteq> ''tag_numbers'' \<longrightarrow>
             p f = Some (js_nc (patch_get [''tag_numbers'' \<mapsto> JArr [JStr ''PT-101'', JStr ''TT-7'']] f)
                          JNull))
       \<and> p ''tag_numbers'' = Some (JArr [JStr ''PT-101'', JStr ''TT-7''])"
    using recategorize_resets_owned_fields [OF p t(1), of replacements_note "[]"] s a m by auto
  moreover have "q ''tag_numbers'' = Some JNull"
    using recategorize_resets_owned_fields [OF q t(2), of replacements_note "[]"] b by blast
  ultimately show ?thesis
    using n t a m b p q l
    by (simp add: category_owned_fields_def patch_get_def js_nc_def nullish_def)
qed

text \<open>
  Claim C4 as stated fails. Recategorizing to \<open>Software update\<close> with a form that holds the
  tag list \<open>['PT-9']\<close>: validation passes, the serialization of the new category produces
  the software type and the version only, and the patch sent holds the tag list, not null,
  for \<open>tag_numbers\<close>.
\<close>

theorem recategorize_keeps_submitted_tags_counterexample:
  "validation_error (getCategoryConfig (JStr ''Software update'')) software_form five_stacks = None
   \<and> serialized_fields (getCategoryConfig (JStr ''Software update'')) software_form five_stacks
       = Inr [''software_type'' \<mapsto> JStr ''PLC software'', ''version'' \<mapsto> JStr ''v2.1.0'']
   \<and> sent_field ''tag_numbers''
        (handleRecategorizeNote example_fromISO five_stacks True replacements_note
           [Submitted [(''new_category'', JStr ''Software update'')], Submitted software_form])
       = [Some (JArr [JStr ''PT-9''])]
   \<and> sent_field ''software_type''
        (handleRecategorizeNote example_fromISO five_stacks True replacements_note
           [Submitted [(''new_category'', JStr ''Software update'')], Submitted software_form])
       = [Some (JStr ''PLC software'')]
   \<and> sent_field ''stack_replacements''
        (handleRecategorizeNote example_fromISO five_stacks True replacements_note
           [Submitted [(''new_category'', JStr ''Software update'')], Submitted software_form])
       = [Some JNull]"
proof -
  have v: "validation_error (getCategoryConfig (JStr ''Software update'')) software_form
      five_stacks = None"
    by (simp add: validation_error_def getCategoryConfig_values softwareUpdate_def)
  have s: "serialized_fields (getCategoryConfig (JStr ''Software update'')) software_form
      five_stacks
       = Inr [''software_type'' \<mapsto> JStr ''PLC software'', ''version'' \<mapsto> JStr ''v2.1.0'']"
    by (simp add: serialized_fields_def getCategoryConfig_values softwareUpdate_def
        software_form_def jsget_def js_or_def)
  obtain p where p: "recategorize_submit example_fromISO five_stacks True
      (JStr ''Software update'') software_form = Persist p"
    and pt: "p ''tag_numbers'' = Some (JArr [JStr ''PT-9''])"
    and ps: "p ''software_type'' = Some (JStr ''PLC software'')"
    and pr: "p ''stack_replacements'' = Some JNull"
    by (simp add: recategorize_submit_def eval_defs softwareUpdate_def software_form_def
        category_owned_fields_def example_fromISO_def)
  have l: "handleRecategorizeNote example_fromISO five_stacks True replacements_note
           [Submitted [(''new_category'', JStr ''Software update'')], Submitted software_form]
         = [OpenFormDialog (CategoryDialog ''new_category'' (getCategoryOptions True)),
            OpenFormDialog
              (FieldsDialog (buildFullInputs (JStr ''Software update'') five_stacks True) None),
            NotesEdit (note_id replacements_note) p]"
    by (simp add: handleRecategorizeNote_def recategorize_loop.simps(3) jsget_def
        recategorize_loop_fill p)
  show ?thesis using v s by (simp add: l pt ps pr)
qed

lemma edit_tags_read:
  "patch_get
     (if truthy (jsget form ''performed_on'')
      then ((map_of form)(''performed_on'' := None))(''performed_on'' \<mapsto> x)
      else (map_of form)(''performed_on'' := None)) ''tag_numbers''
   = jsget form ''tag_numbers''"
  by (simp add: patch_get_def jsget_def)

lemma edit_tags_read_upd:
  "patch_get ((map_of form)(''performed_on'' \<mapsto> x)) ''tag_numbers'' = jsget form ''tag_numbers''"
  "patch_get ((map_of form)(''performed_on'' := None)) ''tag_numbers'' = jsget form ''tag_numbers''"
  by (simp_all add: patch_get_def jsget_def)

lemma edit_submit_PersistD:
  assumes "edit_submit fromISO h pp note form = Persist p"
  obtains u s where
    "transform_tags (jsget form ''tag_numbers'')
       (if truthy (jsget form ''performed_on'')
        then (map_of form)(''performed_on'' \<mapsto> toMillis (fromISO (jsget form ''performed_on'')))
        else (map_of form)(''performed_on'' := None)) = Inr u"
    and "serialized_fields (getCategoryConfig (category_of note)) form (h\<lparr>isEdit := True\<rparr>)
           = Inr s"
    and "p = u ++ s"
  using assms
  by (auto simp: edit_submit_def Let_def edit_tags_read_upd split: sum.splits option.splits if_splits)

lemma edit_submit_validation:
  assumes "validation_error (getCategoryConfig (category_of note)) form h = Some msg"
  shows "edit_submit fromISO h pp note form
           = (case transform_tags (jsget form ''tag_numbers'')
                     (if truthy (jsget form ''performed_on'')
                      then ((map_of form)(''performed_on'' := None))
                             (''performed_on'' \<mapsto> toMillis (fromISO (jsget form ''performed_on'')))
                      else (map_of form)(''performed_on'' := None)) of
                Inl e \<Rightarrow> Threw e
              | Inr updatedNote \<Rightarrow> ValidationError msg)"
  using assms
    validation_error_isEdit [where c = "category_of note" and form = form and h = h and b = True]
  by (simp add: edit_submit_def Let_def edit_tags_read split: sum.splits)

lemma transform_tags_convertible:
  "tags_convertible form \<Longrightarrow> \<exists>u'. transform_tags (jsget form ''tag_numbers'') u = Inr u'"
  by (auto simp: tags_convertible_def transform_tags_def split: jsval.splits sum.splits)

text \<open>
  Claim C5, as the code has it. When the validator of the active category returns a
  message for the submitted form: in Add and Recategorize the handler shows the message in
  an alert and nothing else before it opens the fill dialog again, with the same request as
  before (the inputs of the category and no initial value); in Edit the handler never calls
  the notes service, and, the tag list being convertible, it shows the alert and ends.
\<close>

theorem validation_failure_blocks_persistence:
  assumes "truthy c" and "validation_error (getCategoryConfig c) form h = Some msg"
  shows "add_loop fromISO h pp Step_note c (Submitted form # rs)
           = OpenFormDialog (FieldsDialog (buildFullInputs c h pp) None)
               # OpenAlertDialog ''Validation Error'' msg
               # add_loop fromISO h pp Step_note c rs
       \<and> (\<exists>tr. add_loop fromISO h pp Step_note c rs
                  = OpenFormDialog (FieldsDialog (buildFullInputs c h pp) None) # tr)
       \<and> recategorize_loop fromISO h pp note Step_fill_new_fields c (Submitted form # rs)
           = OpenFormDialog (FieldsDialog (buildFullInputs c h pp) None)
               # OpenAlertDialog ''Validation Error'' msg
               # recategorize_loop fromISO h pp note Step_fill_new_fields c rs
       \<and> (\<exists>tr. recategorize_loop fromISO h pp note Step_fill_new_fields c rs
                  = OpenFormDialog (FieldsDialog (buildFullInputs c h pp) None) # tr)
       \<and> (category_of note = c
            \<longrightarrow> (\<forall>i p. NotesEdit i p
                       \<notin> set (handleEditNote fromISO h pp note initialValue (Submitted form # rs)))
              \<and> (tags_convertible form
                   \<longrightarrow> handleEditNote fromISO h pp note initialValue (Submitted form # rs)
                       = [OpenFormDialog
                            (FieldsDialog (buildFullInputs c (h\<lparr>isEdit := True\<rparr>) pp)
                               (Some initialValue)),
                          OpenAlertDialog ''Validation Error'' msg]))"
proof -
  have a: "add_loop fromISO h pp Step_note c (Submitted form # rs)
           = OpenFormDialog (FieldsDialog (buildFullInputs c h pp) None)
               # OpenAlertDialog ''Validation Error'' msg
               # add_loop fromISO h pp Step_note c rs"
    using assms by (simp add: add_loop_note add_submit_invalid)
  have r: "recategorize_loop fromISO h pp note Step_fill_new_fields c (Submitted form # rs)
           = OpenFormDialog (FieldsDialog (buildFullInputs c h pp) None)
               # OpenAlertDialog ''Validation Error'' msg
               # recategorize_loop fromISO h pp note Step_fill_new_fields c rs"
    using assms by (simp add: recategorize_loop_fill recategorize_submit_invalid)
  have e: "(\<forall>i p. NotesEdit i p
                       \<notin> set (handleEditNote fromISO h pp note initialValue (Submitted form # rs)))
              \<and> (tags_convertible form
                   \<longrightarrow> handleEditNote fromISO h pp note initialValue (Submitted form # rs)
                       = [OpenFormDialog
                            (FieldsDialog (buildFullInputs c (h\<lparr>isEdit := True\<rparr>) pp)
                               (Some initialValue)),
                          OpenAlertDialog ''Validation Error'' msg])"
    if n: "category_of note = c"
  proof -
    have v: "validation_error (getCategoryConfig (category_of note)) form h = Some msg"
      using assms(2) n by simp
    have o: "js_or (category_of note) (JStr ''Other'') = c"
      using assms(1) n by (simp add: js_or_def)
    define u where "u = (if truthy (jsget form ''performed_on'')
                      then ((map_of form)(''performed_on'' := None))
                             (''performed_on'' \<mapsto> toMillis (fromISO (jsget form ''performed_on'')))
                      else (map_of form)(''performed_on'' := None))"
    have es: "edit_submit fromISO h pp note form
           = (case transform_tags (jsget form ''tag_numbers'') u of
                Inl e \<Rightarrow> Threw e
              | Inr updatedNote \<Rightarrow> ValidationError msg)"
      unfolding u_def using v by (rule edit_submit_validation)
    show ?thesis
    proof (cases "transform_tags (jsget form ''tag_numbers'') u")
      case (Inl e)
      then have "\<not> tags_convertible form"
        using transform_tags_convertible [of form u] by auto
      then show ?thesis by (simp add: handleEditNote_def o es Inl)
    next
      case (Inr u')
      then show ?thesis by (simp add: handleEditNote_def o es)
    qed
  qed
  show ?thesis
    using a r e add_loop_note_opens [OF assms(1)] recategorize_loop_fill_opens [OF assms(1)]
    by blast
qed

lemma blank_form_invalid:
  "validation_error (getCategoryConfig (JStr ''Stack installs'')) blank_form five_stacks
     = Some ''At least one stack install must be filled in.''"
  by (simp add: validation_error_def getCategoryConfig_values stackInstalls_def
      extractStackInstallsFromForm_def getStackIdentifiers_def ALL_STACK_IDENTIFIERS_def
      blank_form_def five_stacks_def jsget_def getprop_def js_or_def)

lemma installs_inputs:
  "buildFullInputs (JStr ''Stack installs'') (five_stacks\<lparr>isEdit := b\<rparr>) True
     = [''performed_on'', ''stack_group_installs_a'', ''stack_group_installs_b'',
        ''stack_group_installs_c'', ''stack_group_installs_d'', ''stack_group_installs_e'',
        ''text'', ''external_note'']"
  "buildFullInputs (JStr ''Stack installs'') five_stacks True
     = [''performed_on'', ''stack_group_installs_a'', ''stack_group_installs_b'',
        ''stack_group_installs_c'', ''stack_group_installs_d'', ''stack_group_installs_e'',
        ''text'', ''external_note'']"
  by (simp_all add: buildFullInputs_def buildCommonInputs_def getCategoryConfig_values
      stackInstalls_def buildStackGroupInputs_def getStackIdentifiers_def
      ALL_STACK_IDENTIFIERS_def five_stacks_def)

text \<open>
  A stack installs form with every serial number blank, in the Add and the Edit flow.
\<close>

theorem validation_failure_blocks_persistence_witness:
  "truthy (JStr ''Stack installs'')
   \<and> validation_error (getCategoryConfig (JStr ''Stack installs'')) blank_form five_stacks
       = Some ''At least one stack install must be filled in.''
   \<and> category_of installs_note = JStr ''Stack installs''
   \<and> tags_convertible blank_form
   \<and> add_loop example_fromISO five_stacks True Step_note (JStr ''Stack installs'')
        [Submitted blank_form]
       = [OpenFormDialog
            (FieldsDialog (buildFullInputs (JStr ''Stack installs'') five_stacks True) None),
          OpenAlertDialog ''Validation Error'' ''At least one stack install must be filled in.'',
          OpenFormDialog
            (FieldsDialog (buildFullInputs (JStr ''Stack installs'') five_stacks True) None)]
   \<and> handleEditNote example_fromISO five_stacks True installs_note [] [Submitted blank_form]
       = [OpenFormDialog
            (FieldsDialog
               (buildFullInputs (JStr ''Stack installs'') (five_stacks\<lparr>isEdit := True\<rparr>) True)
               (Some [])),
          OpenAlertDialog ''Validation Error'' ''At least one stack install must be filled in.'']"
proof -
  have t: "truthy (JStr ''Stack installs'')" by simp
  have n: "category_of installs_note = JStr ''Stack installs''"
    by (simp add: category_of_def installs_note_def)
  have g: "tags_convertible blank_form"
    by (simp add: tags_convertible_def blank_form_def jsget_def)
  have z: "add_loop example_fromISO five_stacks True Step_note (JStr ''Stack installs'') []
       = [OpenFormDialog
            (FieldsDialog (buildFullInputs (JStr ''Stack installs'') five_stacks True) None)]"
    by (subst add_loop.simps) simp
  show ?thesis
    using t n g z blank_form_invalid
      validation_failure_blocks_persistence [OF t blank_form_invalid, of example_fromISO True "[]"
        installs_note "[]"]
    by simp
qed

text \<open>
  Claim C5 as stated fails. In Edit the flow ends with the alert: the dialog is not shown
  again, and a second answer of the user is never read. In Add the fill dialog is opened
  again by the request of the first time, with no initial value: the description the user
  had entered is not part of it.
\<close>

theorem validation_failure_counterexample:
  "handleEditNote example_fromISO five_stacks True installs_note []
     [Submitted blank_form, Submitted example_form]
     = [OpenFormDialog
          (FieldsDialog
             [''performed_on'', ''stack_group_installs_a'', ''stack_group_installs_b'',
              ''stack_group_installs_c'', ''stack_group_installs_d'', ''stack_group_installs_e'',
              ''text'', ''external_note'']
             (Some [])),
        OpenAlertDialog ''Validation Error'' ''At least one stack install must be filled in.'']
   \<and> handleAddNote example_fromISO five_stacks True
       [Submitted [(''category'', JStr ''Stack installs'')], Submitted blank_form]
     = [OpenFormDialog (CategoryDialog ''category'' (getCategoryOptions True)),
        OpenFormDialog
          (FieldsDialog
             [''performed_on'', ''stack_group_installs_a'', ''stack_group_installs_b'',
              ''stack_group_installs_c'', ''stack_group_installs_d'', ''stack_group_installs_e'',
              ''text'', ''external_note'']
             None),
        OpenAlertDialog ''Validation Error'' ''At least one stack install must be filled in.'',
        OpenFormDialog
          (FieldsDialog
             [''performed_on'', ''stack_group_installs_a'', ''stack_group_installs_b'',
              ''stack_group_installs_c'', ''stack_group_installs_d'', ''stack_group_installs_e'',
              ''text'', ''external_note'']
             None)]"
proof -
  have n: "category_of installs_note = JStr ''Stack installs''"
    by (simp add: category_of_def installs_note_def)
  have v: "validation_error (getCategoryConfig (category_of installs_note)) blank_form five_stacks
     = Some ''At least one stack install must be filled in.''"
    using blank_form_invalid n by simp
  have e: "edit_submit example_fromISO five_stacks True installs_note blank_form
             = ValidationError ''At least one stack install must be filled in.''"
    unfolding edit_submit_validation [OF v]
    by (simp add: transform_tags_def blank_form_def jsget_def)
  have a: "add_submit example_fromISO five_stacks True (JStr ''Stack installs'') blank_form
             = ValidationError ''At least one stack install must be filled in.''"
    using blank_form_invalid by (rule add_submit_invalid)
  have z: "add_loop example_fromISO five_stacks True Step_note (JStr ''Stack installs'') []
       = [OpenFormDialog
            (FieldsDialog (buildFullInputs (JStr ''Stack installs'') five_stacks True) None)]"
    by (subst add_loop.simps) simp
  have "handleEditNote example_fromISO five_stacks True installs_note []
     [Submitted blank_form, Submitted example_form]
     = [OpenFormDialog
          (FieldsDialog
             (buildFullInputs (JStr ''Stack installs'') (five_stacks\<lparr>isEdit := True\<rparr>) True)
             (Some [])),
        OpenAlertDialog ''Validation Error'' ''At least one stack install must be filled in.'']"
    by (simp add: handleEditNote_def e n js_or_def)
  moreover have "handleAddNote example_fromISO five_stacks True
       [Submitted [(''category'', JStr ''Stack installs'')], Submitted blank_form]
     = [OpenFormDialog (CategoryDialog ''category'' (getCategoryOptions True)),
        OpenFormDialog
          (FieldsDialog (buildFullInputs (JStr ''Stack installs'') five_stacks True) None),
        OpenAlertDialog ''Validation Error'' ''At least one stack install must be filled in.'',
        OpenFormDialog
          (FieldsDialog (buildFullInputs (JStr ''Stack installs'') five_stacks True) None)]"
    by (simp add: handleAddNote_def add_loop.simps(3) jsget_def add_loop_note a z)
  ultimately show ?thesis by (simp add: installs_inputs)
qed

lemma add_omits_unparseable_date:
  assumes "add_submit fromISO h pp c form = Persist p"
    and "fromISO (jsget form ''performed_on'') = Invalid"
  shows "p ''performed_on'' = None"
proof -
  from assms(1) obtain s where s: "serialized_fields (getCategoryConfig c) form h = Inr s"
    and p: "p = (let noteData = [''note_category'' \<mapsto> c,
                              ''external_note'' \<mapsto> external_note_of pp form] ++ s;
                  noteData = (if truthy (jsget form ''performed_on'')
                                 \<and> isValid (fromISO (jsget form ''performed_on''))
                              then noteData(''performed_on'' \<mapsto>
                                     toMillis (fromISO (jsget form ''performed_on'')))
                              else noteData)
              in noteData ++ (map_of form)(''performed_on'' := None, ''external_note'' := None))"
    by (rule add_submit_PersistD)
  have "s ''performed_on'' = None" using s not_owned(3) by (rule serialized_fields_keys)
  then show ?thesis using assms(2) by (simp add: p Let_def map_add_def)
qed

lemma recategorize_omits_unparseable_date:
  assumes "recategorize_submit fromISO h pp c form = Persist p"
    and "fromISO (jsget form ''performed_on'') = Invalid"
  shows "p ''performed_on'' = None"
proof -
  from assms(1) obtain u s where
    u: "transform_tags (jsget form ''tag_numbers'')
           (let updatedNote = [''note_category'' \<mapsto> c,
                               ''external_note'' \<mapsto> external_note_of pp form]
            in if truthy (jsget form ''performed_on'')
                  \<and> isValid (fromISO (jsget form ''performed_on''))
               then updatedNote(''performed_on'' \<mapsto> toMillis (fromISO (jsget form ''performed_on'')))
               else updatedNote) = Inr u"
    and s: "serialized_fields (getCategoryConfig c) form h = Inr s"
    and p: "p = clear_fields category_owned_fields
               (if jsget form ''text'' \<noteq> JUndefined
                then (u ++ s)(''text'' \<mapsto> jsget form ''text'') else u ++ s)"
    by (rule recategorize_submit_PersistD)
  have "s ''performed_on'' = None" using s not_owned(3) by (rule serialized_fields_keys)
  moreover have "u ''performed_on'' = None"
    using transform_tags_other [OF u, of "''performed_on''"] assms(2) by (simp add: Let_def)
  ultimately show ?thesis by (simp add: p clear_fields_apply not_owned map_add_def)
qed

lemma parseable_date_converted:
  assumes "truthy (jsget form ''performed_on'')"
    and "fromISO (jsget form ''performed_on'') = Valid ms"
  shows "add_submit fromISO h pp c form = Persist p \<Longrightarrow> p ''performed_on'' = Some (JNum ms)"
    and "recategorize_submit fromISO h pp c form = Persist q \<Longrightarrow> q ''performed_on'' = Some (JNum ms)"
    and "edit_submit fromISO h pp note form = Persist r \<Longrightarrow> r ''performed_on'' = Some (JNum ms)"
proof -
  show "p ''performed_on'' = Some (JNum ms)" if a: "add_submit fromISO h pp c form = Persist p"
  proof -
    from a obtain s where s: "serialized_fields (getCategoryConfig c) form h = Inr s"
      and p: "p = (let noteData = [''note_category'' \<mapsto> c,
                              ''external_note'' \<mapsto> external_note_of pp form] ++ s;
                  noteData = (if truthy (jsget form ''performed_on'')
                                 \<and> isValid (fromISO (jsget form ''performed_on''))
                              then noteData(''performed_on'' \<mapsto>
                                     toMillis (fromISO (jsget form ''performed_on'')))
                              else noteData)
              in noteData ++ (map_of form)(''performed_on'' := None, ''external_note'' := None))"
      by (rule add_submit_PersistD)
    show ?thesis using assms by (simp add: p Let_def map_add_def)
  qed
  show "q ''performed_on'' = Some (JNum ms)"
    if a: "recategorize_submit fromISO h pp c form = Persist q"
  proof -
    from a obtain u s where
      u: "transform_tags (jsget form ''tag_numbers'')
           (let updatedNote = [''note_category'' \<mapsto> c,
                               ''external_note'' \<mapsto> external_note_of pp form]
            in if truthy (jsget form ''performed_on'')
                  \<and> isValid (fromISO (jsget form ''performed_on''))
               then updatedNote(''performed_on'' \<mapsto> toMillis (fromISO (jsget form ''performed_on'')))
               else updatedNote) = Inr u"
      and s: "serialized_fields (getCategoryConfig c) form h = Inr s"
      and q: "q = clear_fields category_owned_fields
               (if jsget form ''text'' \<noteq> JUndefined
                then (u ++ s)(''text'' \<mapsto> jsget form ''text'') else u ++ s)"
      by (rule recategorize_submit_PersistD)
    have "s ''performed_on'' = None" using s not_owned(3) by (rule serialized_fields_keys)
    moreover have "u ''performed_on'' = Some (JNum ms)"
      using transform_tags_other [OF u, of "''performed_on''"] assms by (simp add: Let_def)
    ultimately show ?thesis by (simp add: q clear_fields_apply not_owned map_add_def)
  qed
  show "r ''performed_on'' = Some (JNum ms)"
    if a: "edit_submit fromISO h pp note form = Persist r"
  proof -
    from a obtain u s where
      u: "transform_tags (jsget form ''tag_numbers'')
            (if truthy (jsget form ''performed_on'')
             then (map_of form)(''performed_on'' \<mapsto> toMillis (fromISO (jsget form ''performed_on'')))
             else (map_of form)(''performed_on'' := None)) = Inr u"
      and s: "serialized_fields (getCategoryConfig (category_of note)) form (h\<lparr>isEdit := True\<rparr>)
                = Inr s"
      and r: "r = u ++ s"
      by (rule edit_submit_PersistD)
    have "s ''performed_on'' = None" using s not_owned(3) by (rule serialized_fields_keys)
    moreover have "u ''performed_on'' = Some (JNum ms)"
      using transform_tags_other [OF u, of "''performed_on''"] assms by simp
    ultimately show ?thesis by (simp add: r map_add_def)
  qed
qed

lemma edit_keeps_unparseable_date:
  assumes "edit_submit fromISO h pp note form = Persist p"
    and "truthy (jsget form ''performed_on'')"
    and "fromISO (jsget form ''performed_on'') = Invalid"
  shows "p ''performed_on'' = Some JNaN"
proof -
  from assms(1) obtain u s where
    u: "transform_tags (jsget form ''tag_numbers'')
          (if truthy (jsget form ''performed_on'')
           then (map_of form)(''performed_on'' \<mapsto> toMillis (fromISO (jsget form ''performed_on'')))
           else (map_of form)(''performed_on'' := None)) = Inr u"
    and s: "serialized_fields (getCategoryConfig (category_of note)) form (h\<lparr>isEdit := True\<rparr>)
              = Inr s"
    and p: "p = u ++ s"
    by (rule edit_submit_PersistD)
  have "s ''performed_on'' = None" using s not_owned(3) by (rule serialized_fields_keys)
  moreover have "u ''performed_on'' = Some JNaN"
    using transform_tags_other [OF u, of "''performed_on''"] assms(2,3) by simp
  ultimately show ?thesis by (simp add: p map_add_def)
qed

text \<open>
  Claim C3 at a form whose \<open>performed_on\<close> is the text \<open>yesterday\<close>, which is no ISO
  instant. Edit sends a patch with \<open>performed_on = NaN\<close>: it converts the date without
  asking whether it is valid. Add and Recategorize, which ask, send patches without
  \<open>performed_on\<close>.
\<close>

theorem edit_writes_NaN_for_unparseable_date:
  "(case handleEditNote example_fromISO five_stacks True calibration_note [] [Submitted bad_date_form] of
      [OpenFormDialog dialog, NotesEdit i p] \<Rightarrow>
        i = ''note-18'' \<and> p ''performed_on'' = Some JNaN
        \<and> p ''tag_numbers'' = Some (JArr [JStr ''PT-101''])
    | _ \<Rightarrow> False)
   \<and> (case handleAddNote example_fromISO five_stacks True
             [Submitted [(''category'', JStr ''Calibration'')], Submitted bad_date_form] of
        [OpenFormDialog d1, OpenFormDialog d2, NotesAdd p] \<Rightarrow> p ''performed_on'' = None
      | _ \<Rightarrow> False)
   \<and> (case handleRecategorizeNote example_fromISO five_stacks True replacements_note
             [Submitted [(''new_category'', JStr ''Calibration'')], Submitted bad_date_form] of
        [OpenFormDialog d1, OpenFormDialog d2, NotesEdit i p] \<Rightarrow> p ''performed_on'' = None
      | _ \<Rightarrow> False)"
proof -
  have n: "category_of calibration_note = JStr ''Calibration''"
    "note_id calibration_note = ''note-18''"
    by (simp_all add: category_of_def calibration_note_def)
  have d: "example_fromISO (jsget bad_date_form ''performed_on'') = Invalid"
    "truthy (jsget bad_date_form ''performed_on'')"
    by (simp_all add: example_fromISO_def bad_date_form_def jsget_def)
  obtain p where p: "edit_submit example_fromISO five_stacks True calibration_note bad_date_form
      = Persist p" and pt: "p ''tag_numbers'' = Some (JArr [JStr ''PT-101''])"
    by (simp add: edit_submit_def n eval_defs calibration_def bad_date_form_def
        example_fromISO_def)
  obtain a where a: "add_submit example_fromISO five_stacks True (JStr ''Calibration'')
      bad_date_form = Persist a"
    by (simp add: add_submit_def eval_defs calibration_def bad_date_form_def)
  obtain r where r: "recategorize_submit example_fromISO five_stacks True (JStr ''Calibration'')
      bad_date_form = Persist r"
    by (simp add: recategorize_submit_def eval_defs calibration_def bad_date_form_def)
  have "p ''performed_on'' = Some JNaN"
    using p d(2) d(1) by (rule edit_keeps_unparseable_date)
  moreover have "a ''performed_on'' = None"
    using a d(1) by (rule add_omits_unparseable_date)
  moreover have "r ''performed_on'' = None"
    using r d(1) by (rule recategorize_omits_unparseable_date)
  ultimately show ?thesis
    using pt
    by (simp add: handleEditNote_def handleAddNote_def handleRecategorizeNote_def p a r n
        add_loop.simps(3) recategorize_loop.simps(3) add_loop_note recategorize_loop_fill
        jsget_def)
qed

end
